theory Spec2Isabelle
  imports Main
begin

section \<open>Auto Time Logger: the log store, the duplicate guard and the Gemini clients\<close>

text \<open>
  A shallow embedding of the extension's core: \<^verbatim>\<open>utils/fsHelper.ts\<close> (the day-log store and
  the duplicate guard), \<^verbatim>\<open>utils/geminiHelper.ts\<close> (the fallback loop over the candidate
  models, the summary and the timesheet request) and the \<^verbatim>\<open>generateTimesheet\<close> command.

  Conventions.
  \<^item> A JavaScript string is a \<open>string\<close>: the bytes of its UTF-8 text. Files are read and
    written with the \<^verbatim>\<open>'utf-8'\<close> encoding, so a file's content is the same list of bytes.
  \<^item> A function that can throw returns \<open>error + 'a\<close>, \<open>Inl\<close> being the thrown value; a
    function with effects takes the state it changes and returns it next to its result, also when
    it throws.
  \<^item> The platform is given, not verified: the file system of \<^verbatim>\<open>fs\<close>, \<^verbatim>\<open>JSON\<close>,
    \<^verbatim>\<open>String.prototype.trim\<close> and the two regular expressions are modelled below; the clock,
    \<^verbatim>\<open>Date\<close> parsing and the generative service are parameters.
\<close>

subsection \<open>Strings\<close>

text \<open>
  \<^verbatim>\<open>trim()\<close> and the regular expression class \<^verbatim>\<open>\s\<close> remove the same characters:
  ECMAScript's WhiteSpace and LineTerminator code points, listed here by their UTF-8 encodings
  (TAB, LF, VT, FF, CR, SPACE, U+00A0, U+1680, U+2000 to U+200A, U+2028, U+2029, U+202F, U+205F,
  U+3000 and U+FEFF).
\<close>

definition js_whitespace :: "string list" where
  "js_whitespace =
     [[CHR 0x09], [CHR 0x0A], [CHR 0x0B], [CHR 0x0C], [CHR 0x0D], [CHR 0x20],
      [CHR 0xC2, CHR 0xA0], [CHR 0xE1, CHR 0x9A, CHR 0x80],
      [CHR 0xE2, CHR 0x80, CHR 0x80], [CHR 0xE2, CHR 0x80, CHR 0x81],
      [CHR 0xE2, CHR 0x80, CHR 0x82], [CHR 0xE2, CHR 0x80, CHR 0x83],
      [CHR 0xE2, CHR 0x80, CHR 0x84], [CHR 0xE2, CHR 0x80, CHR 0x85],
      [CHR 0xE2, CHR 0x80, CHR 0x86], [CHR 0xE2, CHR 0x80, CHR 0x87],
      [CHR 0xE2, CHR 0x80, CHR 0x88], [CHR 0xE2, CHR 0x80, CHR 0x89],
      [CHR 0xE2, CHR 0x80, CHR 0x8A], [CHR 0xE2, CHR 0x80, CHR 0xA8],
      [CHR 0xE2, CHR 0x80, CHR 0xA9], [CHR 0xE2, CHR 0x80, CHR 0xAF],
      [CHR 0xE2, CHR 0x81, CHR 0x9F], [CHR 0xE3, CHR 0x80, CHR 0x80],
      [CHR 0xEF, CHR 0xBB, CHR 0xBF]]"

text \<open>Removes, from the front, every leading occurrence of one of the given byte sequences.\<close>

fun strip_leading :: "string list \<Rightarrow> string \<Rightarrow> string" where
  "strip_leading ws [] = []"
| "strip_leading ws (c # cs) =
     (case find (\<lambda>w. w \<noteq> [] \<and> take (length w) (c # cs) = w) ws of
        None \<Rightarrow> c # cs
      | Some w \<Rightarrow> strip_leading ws (drop (length w - 1) cs))"

definition trimStart :: "string \<Rightarrow> string" where
  "trimStart s = strip_leading js_whitespace s"

definition trimEnd :: "string \<Rightarrow> string" where
  "trimEnd s = rev (strip_leading (map rev js_whitespace) (rev s))"

definition trim :: "string \<Rightarrow> string" where
  "trim s = trimEnd (trimStart s)"

definition starts_with :: "string \<Rightarrow> string \<Rightarrow> bool" where
  "starts_with p s = (take (length p) s = p)"

definition ends_with :: "string \<Rightarrow> string \<Rightarrow> bool" where
  "ends_with p s = (length p \<le> length s \<and> drop (length s - length p) s = p)"

definition to_lower :: "char \<Rightarrow> char" where
  "to_lower c =
     (if 65 \<le> (of_char c :: nat) \<and> (of_char c :: nat) \<le> 90 then char_of (of_char c + 32 :: nat)
      else c)"

subsection \<open>JSON\<close>

text \<open>
  The values \<^verbatim>\<open>JSON.parse\<close> returns. An object is the list of its properties in the order
  the engine enumerates them. A number is kept as its lexeme and written back as it was read:
  the double it denotes is not modelled, and nothing proved below depends on it.
\<close>

datatype json = JNull | JBool bool | JNum string | JStr string
  | JArr "json list" | JObj "(string \<times> json) list"

subsubsection \<open>\<^verbatim>\<open>JSON.stringify(value, null, 2)\<close>\<close>

definition hex_digit :: "nat \<Rightarrow> char" where
  "hex_digit n = (if n < 10 then char_of (48 + n) else char_of (87 + n))"

text \<open>QuoteJSONString: the two-character escapes, \<^verbatim>\<open>\u00xx\<close> for the other control
  characters, every other byte as it is.\<close>

definition escape_char :: "char \<Rightarrow> string" where
  "escape_char c =
     (if c = CHR 0x08 then [CHR 0x5C, CHR ''b'']
      else if c = CHR 0x09 then [CHR 0x5C, CHR ''t'']
      else if c = CHR 0x0A then [CHR 0x5C, CHR ''n'']
      else if c = CHR 0x0C then [CHR 0x5C, CHR ''f'']
      else if c = CHR 0x0D then [CHR 0x5C, CHR ''r'']
      else if c = CHR 0x22 then [CHR 0x5C, CHR 0x22]
      else if c = CHR 0x5C then [CHR 0x5C, CHR 0x5C]
      else if (of_char c :: nat) < 0x20
        then [CHR 0x5C, CHR ''u'', CHR ''0'', CHR ''0'',
              hex_digit (of_char c div 16), hex_digit (of_char c mod 16)]
      else [c])"

definition QuoteJSONString :: "string \<Rightarrow> string" where
  "QuoteJSONString s = CHR 0x22 # concat (map escape_char s) @ [CHR 0x22]"

definition join :: "string \<Rightarrow> string list \<Rightarrow> string" where
  "join sep xs = (case xs of [] \<Rightarrow> [] | x # rest \<Rightarrow> x @ concat (map (\<lambda>y. sep @ y) rest))"

text \<open>The serialisation at indentation \<open>n\<close>, with a gap of two spaces: one element or
  property per line, an empty array or object on one line.\<close>

fun SerializeJSON :: "nat \<Rightarrow> json \<Rightarrow> string" where
  "SerializeJSON n JNull = ''null''"
| "SerializeJSON n (JBool b) = (if b then ''true'' else ''false'')"
| "SerializeJSON n (JNum lexeme) = lexeme"
| "SerializeJSON n (JStr s) = QuoteJSONString s"
| "SerializeJSON n (JArr xs) =
     (if xs = [] then ''[]''
      else ''['' @ [CHR 0x0A] @ replicate (n + 2) CHR '' ''
        @ join ('','' @ [CHR 0x0A] @ replicate (n + 2) CHR '' '') (map (SerializeJSON (n + 2)) xs)
        @ [CHR 0x0A] @ replicate n CHR '' '' @ '']'')"
| "SerializeJSON n (JObj kvs) =
     (if kvs = [] then ''{}''
      else ''{'' @ [CHR 0x0A] @ replicate (n + 2) CHR '' ''
        @ join ('','' @ [CHR 0x0A] @ replicate (n + 2) CHR '' '')
            (map (\<lambda>(k, v). QuoteJSONString k @ '': '' @ SerializeJSON (n + 2) v) kvs)
        @ [CHR 0x0A] @ replicate n CHR '' '' @ ''}'')"

definition JSON_stringify :: "json \<Rightarrow> string" where
  "JSON_stringify v = SerializeJSON 0 v"

subsubsection \<open>\<^verbatim>\<open>JSON.parse\<close>\<close>

text \<open>
  A recursive-descent parser of the JSON grammar: the four JSON white space characters between
  tokens, strings with their escapes, numbers by their grammar, the three literals, arrays and
  objects. Each function returns the value read and the rest of the input, or \<open>None\<close> for a
  SyntaxError.
\<close>

definition is_json_ws :: "char \<Rightarrow> bool" where
  "is_json_ws c = (c = CHR 0x20 \<or> c = CHR 0x09 \<or> c = CHR 0x0A \<or> c = CHR 0x0D)"

definition skip_ws :: "string \<Rightarrow> string" where
  "skip_ws = dropWhile is_json_ws"

definition is_digit :: "char \<Rightarrow> bool" where
  "is_digit c = (48 \<le> (of_char c :: nat) \<and> (of_char c :: nat) \<le> 57)"

definition hex_val :: "char \<Rightarrow> nat option" where
  "hex_val c =
     (let n = (of_char c :: nat) in
      if 48 \<le> n \<and> n \<le> 57 then Some (n - 48)
      else if 97 \<le> n \<and> n \<le> 102 then Some (n - 87)
      else if 65 \<le> n \<and> n \<le> 70 then Some (n - 55)
      else None)"

definition hex4 :: "char \<Rightarrow> char \<Rightarrow> char \<Rightarrow> char \<Rightarrow> nat option" where
  "hex4 a b c d =
     (case (hex_val a, hex_val b, hex_val c, hex_val d) of
        (Some w, Some x, Some y, Some z) \<Rightarrow> Some (((w * 16 + x) * 16 + y) * 16 + z)
      | _ \<Rightarrow> None)"

definition utf8_encode :: "nat \<Rightarrow> string" where
  "utf8_encode n =
     (if n < 0x80 then [char_of n]
      else if n < 0x800 then [char_of (0xC0 + n div 64), char_of (0x80 + n mod 64)]
      else if n < 0x10000 then
        [char_of (0xE0 + n div 4096), char_of (0x80 + n div 64 mod 64), char_of (0x80 + n mod 64)]
      else
        [char_of (0xF0 + n div 262144), char_of (0x80 + n div 4096 mod 64),
         char_of (0x80 + n div 64 mod 64), char_of (0x80 + n mod 64)])"

text \<open>The input after \<^verbatim>\<open>\u\<close>: four hexadecimal digits give a code unit; a high surrogate
  followed by an escaped low surrogate gives one code point. The result is the UTF-8 encoding
  (of a lone surrogate too, as three bytes).\<close>

definition unicode_escape :: "string \<Rightarrow> (string \<times> string) option" where
  "unicode_escape s =
     (case s of
        a # b # c # d # r \<Rightarrow>
          (case hex4 a b c d of
             None \<Rightarrow> None
           | Some hi \<Rightarrow>
               (if 0xD800 \<le> hi \<and> hi < 0xDC00 then
                  (case r of
                     bs # u # e # f # g # h # r' \<Rightarrow>
                       (if bs = CHR 0x5C \<and> u = CHR ''u'' then
                          (case hex4 e f g h of
                             Some lo \<Rightarrow>
                               (if 0xDC00 \<le> lo \<and> lo < 0xE000
                                then Some (utf8_encode
                                       (0x10000 + (hi - 0xD800) * 0x400 + (lo - 0xDC00)), r')
                                else Some (utf8_encode hi, r))
                           | None \<Rightarrow> Some (utf8_encode hi, r))
                        else Some (utf8_encode hi, r))
                   | _ \<Rightarrow> Some (utf8_encode hi, r))
                else Some (utf8_encode hi, r)))
      | _ \<Rightarrow> None)"

definition simple_escape :: "char \<Rightarrow> char option" where
  "simple_escape e =
     (if e = CHR 0x22 then Some (CHR 0x22)
      else if e = CHR 0x5C then Some (CHR 0x5C)
      else if e = CHR ''/'' then Some (CHR ''/'')
      else if e = CHR ''b'' then Some (CHR 0x08)
      else if e = CHR ''f'' then Some (CHR 0x0C)
      else if e = CHR ''n'' then Some (CHR 0x0A)
      else if e = CHR ''r'' then Some (CHR 0x0D)
      else if e = CHR ''t'' then Some (CHR 0x09)
      else None)"

text \<open>The characters of a string, after its opening quote and up to its closing quote. (The
  test on the two lengths always succeeds; it is there for the termination argument.)\<close>

fun parse_chars :: "string \<Rightarrow> (string \<times> string) option" where
  "parse_chars [] = None"
| "parse_chars (c # cs) =
     (if c = CHR 0x22 then Some ([], cs)
      else if c = CHR 0x5C then
        (case cs of
           [] \<Rightarrow> None
         | e # cs' \<Rightarrow>
             (if e = CHR ''u'' then
                (case unicode_escape cs' of
                   None \<Rightarrow> None
                 | Some (bytes, r) \<Rightarrow>
                     (if length r < length cs
                      then map_option (\<lambda>(s, r'). (bytes @ s, r')) (parse_chars r)
                      else None))
              else
                (case simple_escape e of
                   None \<Rightarrow> None
                 | Some ch \<Rightarrow> map_option (\<lambda>(s, r'). (ch # s, r')) (parse_chars cs'))))
      else if (of_char c :: nat) < 0x20 then None
      else map_option (\<lambda>(s, r'). (c # s, r')) (parse_chars cs))"

text \<open>A number: an optional minus, an integer part without a leading zero, an optional
  fraction, an optional exponent.\<close>

definition scan_integer :: "string \<Rightarrow> (string \<times> string) option" where
  "scan_integer s =
     (case s of
        [] \<Rightarrow> None
      | c # r \<Rightarrow>
          (if c = CHR ''0'' then Some ([c], r)
           else if is_digit c then Some (takeWhile is_digit s, dropWhile is_digit s)
           else None))"

definition scan_fraction :: "string \<Rightarrow> (string \<times> string) option" where
  "scan_fraction s =
     (case s of
        [] \<Rightarrow> Some ([], [])
      | d # r \<Rightarrow>
          (if d = CHR ''.'' then
             (let ds = takeWhile is_digit r
              in if ds = [] then None else Some (d # ds, dropWhile is_digit r))
           else Some ([], s)))"

definition scan_exponent :: "string \<Rightarrow> (string \<times> string) option" where
  "scan_exponent s =
     (case s of
        [] \<Rightarrow> Some ([], [])
      | e # r \<Rightarrow>
          (if e = CHR ''e'' \<or> e = CHR ''E'' then
             (let sgn = (case r of [] \<Rightarrow> [] | g # _ \<Rightarrow> if g = CHR ''+'' \<or> g = CHR ''-'' then [g] else []);
                  r1 = drop (length sgn) r;
                  ds = takeWhile is_digit r1
              in if ds = [] then None else Some (e # sgn @ ds, dropWhile is_digit r1))
           else Some ([], s)))"

definition scan_number :: "string \<Rightarrow> (string \<times> string) option" where
  "scan_number s =
     (let sgn = (case s of [] \<Rightarrow> [] | m # _ \<Rightarrow> if m = CHR ''-'' then [m] else [])
      in case scan_integer (drop (length sgn) s) of
           None \<Rightarrow> None
         | Some (i, s1) \<Rightarrow>
             (case scan_fraction s1 of
                None \<Rightarrow> None
              | Some (f, s2) \<Rightarrow>
                  (case scan_exponent s2 of
                     None \<Rightarrow> None
                   | Some (e, s3) \<Rightarrow> Some (sgn @ i @ f @ e, s3))))"

text \<open>Defining a property of an object under construction: a repeated key keeps its place
  and takes the later value. (The engine lists keys that are array indices first; that
  reordering is not modelled, and nothing below depends on it.)\<close>

definition obj_set :: "string \<Rightarrow> json \<Rightarrow> (string \<times> json) list \<Rightarrow> (string \<times> json) list" where
  "obj_set k v kvs =
     (if k \<in> fst ` set kvs then map (\<lambda>(k', v'). if k' = k then (k', v) else (k', v')) kvs
      else kvs @ [(k, v)])"

lemma parse_chars_shorter: "parse_chars s = Some (t, r) \<Longrightarrow> length r < length s"
proof (induction s arbitrary: t r rule: parse_chars.induct)
  case 1
  then show ?case by simp
next
  case (2 c cs)
  then show ?case
    by (fastforce split: if_splits list.splits option.splits)
qed

lemma skip_ws_length: "length (skip_ws s) \<le> length s"
  by (simp add: skip_ws_def length_dropWhile_le)

function parse_value :: "string \<Rightarrow> (json \<times> string) option"
  and parse_elements :: "json list \<Rightarrow> string \<Rightarrow> (json \<times> string) option"
  and parse_members :: "(string \<times> json) list \<Rightarrow> string \<Rightarrow> (json \<times> string) option"
where
  "parse_value s =
     (case skip_ws s of
        [] \<Rightarrow> None
      | c # r \<Rightarrow>
          (if c = CHR ''['' then
             (case skip_ws r of
                [] \<Rightarrow> None
              | d # r' \<Rightarrow> if d = CHR '']'' then Some (JArr [], r') else parse_elements [] r)
           else if c = CHR ''{'' then
             (case skip_ws r of
                [] \<Rightarrow> None
              | d # r' \<Rightarrow> if d = CHR ''}'' then Some (JObj [], r') else parse_members [] r)
           else if c = CHR 0x22 then map_option (\<lambda>(t, r'). (JStr t, r')) (parse_chars r)
           else if starts_with ''true'' (c # r) then Some (JBool True, drop 4 (c # r))
           else if starts_with ''false'' (c # r) then Some (JBool False, drop 5 (c # r))
           else if starts_with ''null'' (c # r) then Some (JNull, drop 4 (c # r))
           else map_option (\<lambda>(lexeme, r'). (JNum lexeme, r')) (scan_number (c # r))))"
| "parse_elements acc s =
     (case parse_value s of
        None \<Rightarrow> None
      | Some (v, r) \<Rightarrow>
          (if length r < length s then
             (case skip_ws r of
                [] \<Rightarrow> None
              | c # r' \<Rightarrow>
                  (if c = CHR '','' then parse_elements (acc @ [v]) r'
                   else if c = CHR '']'' then Some (JArr (acc @ [v]), r')
                   else None))
           else None))"
| "parse_members acc s =
     (case skip_ws s of
        [] \<Rightarrow> None
      | q # r \<Rightarrow>
          (if q = CHR 0x22 then
             (case parse_chars r of
                None \<Rightarrow> None
              | Some (k, r1) \<Rightarrow>
                  (case skip_ws r1 of
                     [] \<Rightarrow> None
                   | d # r2 \<Rightarrow>
                       (if d = CHR '':'' then
                          (case parse_value r2 of
                             None \<Rightarrow> None
                           | Some (v, r3) \<Rightarrow>
                               (if length r3 < length r2 then
                                  (case skip_ws r3 of
                                     [] \<Rightarrow> None
                                   | e # r4 \<Rightarrow>
                                       (if e = CHR '','' then parse_members (obj_set k v acc) r4
                                        else if e = CHR ''}'' then Some (JObj (obj_set k v acc), r4)
                                        else None))
                                else None))
                        else None)))
           else None))"
  by pat_completeness auto
termination
proof (relation "measure (\<lambda>x. case x of
          Inl s \<Rightarrow> 2 * length s
        | Inr (Inl (acc, s)) \<Rightarrow> 2 * length s + 1
        | Inr (Inr (acc, s)) \<Rightarrow> 2 * length s + 1)", goal_cases)
  case 1
  then show ?case by simp
next
  case (2 s c r d r')
  have "length (skip_ws s) \<le> length s" by (rule skip_ws_length)
  with 2 show ?case by simp
next
  case (3 s c r d r')
  have "length (skip_ws s) \<le> length s" by (rule skip_ws_length)
  with 3 show ?case by simp
next
  case (4 acc s)
  then show ?case by simp
next
  case (5 acc s x2 v r c r')
  have "length (skip_ws r) \<le> length r" by (rule skip_ws_length)
  with 5 show ?case by simp
next
  case (6 acc s q r x2 k r1 d r2)
  have a: "length (skip_ws s) \<le> length s" by (rule skip_ws_length)
  have b: "length (skip_ws r1) \<le> length r1" by (rule skip_ws_length)
  have c: "length r1 < length r" using 6 by (auto dest: parse_chars_shorter)
  from a b c 6 show ?case by simp
next
  case (7 acc s q r x2 k r1 d r2 x2a v r3 e r4)
  have a: "length (skip_ws s) \<le> length s" by (rule skip_ws_length)
  have b: "length (skip_ws r1) \<le> length r1" by (rule skip_ws_length)
  have c: "length r1 < length r" using 7 by (auto dest: parse_chars_shorter)
  have d: "length (skip_ws r3) \<le> length r3" by (rule skip_ws_length)
  from a b c d 7 show ?case by simp
qed

declare parse_value.simps [simp del] parse_elements.simps [simp del] parse_members.simps [simp del]

text \<open>The whole text is one value; only white space may follow it.\<close>

definition JSON_parse :: "string \<Rightarrow> json option" where
  "JSON_parse text =
     (case parse_value text of
        None \<Rightarrow> None
      | Some (v, r) \<Rightarrow> if skip_ws r = [] then Some v else None)"

subsubsection \<open>Plain values\<close>

text \<open>
  The values on which \<^verbatim>\<open>JSON.parse\<close> is shown below to invert
  \<^verbatim>\<open>JSON.stringify(_, null, 2)\<close>: no number, and no object with a repeated key. Log
  entries and timesheets are plain. A plain value's serialisation opens with one of six
  characters and closes with one of five, none of them a first or last byte of a white space
  character.
\<close>

fun plain :: "json \<Rightarrow> bool" where
  "plain JNull = True"
| "plain (JBool b) = True"
| "plain (JNum lexeme) = False"
| "plain (JStr s) = True"
| "plain (JArr xs) = list_all plain xs"
| "plain (JObj kvs) = (distinct (map fst kvs) \<and> list_all plain (map snd kvs))"

definition opens_value :: "char \<Rightarrow> bool" where
  "opens_value c = (c = CHR ''['' \<or> c = CHR ''{'' \<or> c = CHR 0x22 \<or> c = CHR ''t'' \<or> c = CHR ''f'' \<or> c = CHR ''n'')"

definition ws_first :: "char list" where
  "ws_first = map hd js_whitespace"

definition ws_last :: "char list" where
  "ws_last = map last js_whitespace"

definition closes_value :: "char \<Rightarrow> bool" where
  "closes_value c = (c = CHR '']'' \<or> c = CHR ''}'' \<or> c = CHR 0x22 \<or> c = CHR ''e'' \<or> c = CHR ''l'')"

subsection \<open>Thrown values\<close>

text \<open>
  The values the modelled code throws or lets through: the file system's error codes,
  \<^verbatim>\<open>JSON.parse\<close>'s SyntaxError, a TypeError (a property read on \<^verbatim>\<open>null\<close> or
  \<^verbatim>\<open>undefined\<close>, a call of something that is not a function), an error of the generative
  service with its message, and the three \<^verbatim>\<open>new Error(...)\<close> of the source, each keeping the
  error it was built from. \<open>Unmodelled\<close> is not a thrown value: it marks the one place where this
  model stops (see \<open>length_is_zero\<close>).
\<close>

datatype error =
    ENOENT | ENOTDIR | EISDIR | EEXIST
  | SyntaxError
  | TypeError
  | ServiceError string
  | FailedToParseLogFile "string list" error
  | AllFallbackModelsFailed
  | FailedToGenerateTimesheet error
  | Unmodelled

subsection \<open>The file system\<close>

text \<open>
  A path is the list of its components from the root, so \<^verbatim>\<open>path.dirname\<close> drops the last
  one. A file system maps a path to the directory or the file that is there. Permissions and
  I/O failures other than the four error codes are outside the model.
\<close>

type_synonym path = "string list"

datatype node = Dir | File string

type_synonym fs = "path \<Rightarrow> node option"

definition dirname :: "path \<Rightarrow> path" where
  "dirname p = butlast p"

definition existsSync :: "fs \<Rightarrow> path \<Rightarrow> bool" where
  "existsSync fs p = (fs p \<noteq> None)"

definition readFileSync :: "fs \<Rightarrow> path \<Rightarrow> error + string" where
  "readFileSync fs p =
     (case fs p of
        None \<Rightarrow> Inl ENOENT
      | Some Dir \<Rightarrow> Inl EISDIR
      | Some (File content) \<Rightarrow> Inr content)"

definition ancestors :: "path \<Rightarrow> path list" where
  "ancestors p = map (\<lambda>n. take n p) [0..<Suc (length p)]"

definition is_file :: "node option \<Rightarrow> bool" where
  "is_file n = (case n of Some (File content) \<Rightarrow> True | _ \<Rightarrow> False)"

text \<open>\<^verbatim>\<open>fs.writeFileSync(p, data, 'utf-8')\<close> creates or truncates the file; it creates no
  directory. The path is resolved from the root, through \<open>ancestors (dirname p)\<close> in this order:
  the first component above the file that is not a directory makes the call fail, with
  \<^verbatim>\<open>ENOTDIR\<close> when it is a regular file and with \<^verbatim>\<open>ENOENT\<close> when nothing is there.\<close>

definition writeFileSync :: "path \<Rightarrow> string \<Rightarrow> fs \<Rightarrow> (error + unit) \<times> fs" where
  "writeFileSync p data fs =
     (case find (\<lambda>q. fs q \<noteq> Some Dir) (ancestors (dirname p)) of
        Some q \<Rightarrow> (Inl (if is_file (fs q) then ENOTDIR else ENOENT), fs)
      | None \<Rightarrow>
          (case fs p of
             Some Dir \<Rightarrow> (Inl EISDIR, fs)
           | _ \<Rightarrow> (Inr (), fs(p \<mapsto> File data))))"

text \<open>\<^verbatim>\<open>fs.mkdirSync(p, { recursive: true })\<close>: the directory and every missing directory
  above it; no error when it is already there; an error when a file is in the way.\<close>

definition mkdirSync_recursive :: "path \<Rightarrow> fs \<Rightarrow> (error + unit) \<times> fs" where
  "mkdirSync_recursive p fs =
     (if list_ex (\<lambda>q. is_file (fs q)) (ancestors p) then
        (Inl (if is_file (fs p) then EEXIST else ENOTDIR), fs)
      else (Inr (), (\<lambda>q. if q \<in> set (ancestors p) then Some Dir else fs q)))"

subsection \<open>The log store (\<^verbatim>\<open>utils/fsHelper.ts\<close>)\<close>

text \<open>A log entry as the commands build it, and the object it is at run time: its eight
  properties, in the order of the object literal.\<close>

datatype LogSource = manual | clipboard | activeInputCapture

record LogEntry =
  timestamp :: string
  description :: string
  aiPrompt :: string
  file' :: string
  method' :: string
  codeContextSnippetHash :: string
  summary :: string
  source :: LogSource

definition LogSource_text :: "LogSource \<Rightarrow> string" where
  "LogSource_text s =
     (case s of manual \<Rightarrow> ''manual'' | clipboard \<Rightarrow> ''clipboard''
      | activeInputCapture \<Rightarrow> ''activeInputCapture'')"

definition LogEntry_json :: "LogEntry \<Rightarrow> json" where
  "LogEntry_json e =
     JObj [(''timestamp'', JStr (timestamp e)),
           (''description'', JStr (description e)),
           (''aiPrompt'', JStr (aiPrompt e)),
           (''file'', JStr (file' e)),
           (''method'', JStr (method' e)),
           (''codeContextSnippetHash'', JStr (codeContextSnippetHash e)),
           (''summary'', JStr (summary e)),
           (''source'', JStr (LogSource_text (source e)))]"

definition ensureDir :: "path \<Rightarrow> fs \<Rightarrow> (error + unit) \<times> fs" where
  "ensureDir dirPath fs = mkdirSync_recursive dirPath fs"

text \<open>
  \<^verbatim>\<open>readLogFile\<close>. What \<^verbatim>\<open>JSON.parse\<close> returns is returned as it is: the cast
  \<^verbatim>\<open>as LogEntry[]\<close> checks nothing at run time, so the result is a JSON value. Whatever
  is thrown while reading or parsing is wrapped in \<^verbatim>\<open>Failed to parse log file\<close>.
\<close>

definition readLogFile :: "fs \<Rightarrow> path \<Rightarrow> error + json" where
  "readLogFile fs filePath =
     (if \<not> existsSync fs filePath then Inr (JArr [])
      else
        (case
           (case readFileSync fs filePath of
              Inl err \<Rightarrow> Inl err
            | Inr content \<Rightarrow>
                (let raw = trim content in
                 if raw = [] then Inr (JArr [])
                 else (case JSON_parse raw of None \<Rightarrow> Inl SyntaxError | Some v \<Rightarrow> Inr v)))
         of
           Inl err \<Rightarrow> Inl (FailedToParseLogFile filePath err)
         | Inr entries \<Rightarrow> Inr entries))"

definition writeLogFile :: "path \<Rightarrow> json \<Rightarrow> fs \<Rightarrow> (error + unit) \<times> fs" where
  "writeLogFile filePath entries fs = writeFileSync filePath (JSON_stringify entries) fs"

text \<open>\<^verbatim>\<open>entries.push(entry)\<close>: only an array has \<^verbatim>\<open>push\<close>; on any other value the call
  throws a TypeError.\<close>

definition push :: "json \<Rightarrow> json \<Rightarrow> error + json" where
  "push entries entry = (case entries of JArr xs \<Rightarrow> Inr (JArr (xs @ [entry])) | _ \<Rightarrow> Inl TypeError)"

definition appendLogEntry :: "path \<Rightarrow> json \<Rightarrow> fs \<Rightarrow> (error + unit) \<times> fs" where
  "appendLogEntry filePath entry fs =
     (case ensureDir (dirname filePath) fs of
        (Inl err, fs1) \<Rightarrow> (Inl err, fs1)
      | (Inr _, fs1) \<Rightarrow>
          (case readLogFile fs1 filePath of
             Inl err \<Rightarrow> (Inl err, fs1)
           | Inr entries \<Rightarrow>
               (case push entries entry of
                  Inl err \<Rightarrow> (Inl err, fs1)
                | Inr entries' \<Rightarrow> writeLogFile filePath entries' fs1)))"

definition writeTimesheetFile :: "path \<Rightarrow> json \<Rightarrow> fs \<Rightarrow> (error + unit) \<times> fs" where
  "writeTimesheetFile filePath timesheet fs =
     (case ensureDir (dirname filePath) fs of
        (Inl err, fs1) \<Rightarrow> (Inl err, fs1)
      | (Inr _, fs1) \<Rightarrow> writeFileSync filePath (JSON_stringify timesheet) fs1)"

definition fileExists :: "fs \<Rightarrow> path \<Rightarrow> bool" where
  "fileExists fs filePath = existsSync fs filePath"

subsection \<open>The duplicate guard\<close>

text \<open>
  Property reads on a JSON value. \<open>None\<close> stands for \<^verbatim>\<open>undefined\<close>. \<open>js_get v k\<close> is
  \<^verbatim>\<open>v.k\<close> for a value \<open>v\<close> that is neither \<^verbatim>\<open>null\<close> nor \<^verbatim>\<open>undefined\<close> and a key
  that no prototype defines (\<^verbatim>\<open>aiPrompt\<close>, \<^verbatim>\<open>description\<close>, \<^verbatim>\<open>timestamp\<close>): an own
  property of an object, \<^verbatim>\<open>undefined\<close> on anything else. \<open>nullish a b\<close> is \<^verbatim>\<open>a ?? b\<close>.
\<close>

definition js_get :: "json \<Rightarrow> string \<Rightarrow> json option" where
  "js_get v k = (case v of JObj kvs \<Rightarrow> map_of kvs k | _ \<Rightarrow> None)"

definition nullish :: "json option \<Rightarrow> json option \<Rightarrow> json option" where
  "nullish a b = (case a of None \<Rightarrow> b | Some JNull \<Rightarrow> b | Some v \<Rightarrow> Some v)"

text \<open>
  \<^verbatim>\<open>entries.length === 0\<close> on whatever was parsed. \<^verbatim>\<open>null\<close> has no properties (a
  TypeError); an array and a string have a length; a number and a boolean have none
  (\<^verbatim>\<open>undefined === 0\<close> is false); so has an object without a \<^verbatim>\<open>length\<close> property. An
  object that has a \<^verbatim>\<open>length\<close> property is where the model stops: the comparison and the
  index computed from it depend on JavaScript's arithmetic on that property's value.
\<close>

definition length_is_zero :: "json \<Rightarrow> error + bool" where
  "length_is_zero entries =
     (case entries of
        JNull \<Rightarrow> Inl TypeError
      | JArr xs \<Rightarrow> Inr (xs = [])
      | JStr s \<Rightarrow> Inr (s = [])
      | JObj kvs \<Rightarrow> (case map_of kvs ''length'' of None \<Rightarrow> Inr False | Some _ \<Rightarrow> Inl Unmodelled)
      | _ \<Rightarrow> Inr False)"

text \<open>
  \<^verbatim>\<open>entries[entries.length - 1]\<close>, once the length is known not to be zero: the last element
  of an array; the last character of a string, itself a string (only its being a string matters
  below); for a value without a length the index is \<^verbatim>\<open>NaN\<close>, that is the property named
  \<^verbatim>\<open>NaN\<close>, which only an object can have.
\<close>

definition last_element :: "json \<Rightarrow> json option" where
  "last_element entries =
     (case entries of
        JArr xs \<Rightarrow> (if xs = [] then None else Some (last xs))
      | JStr s \<Rightarrow> (if s = [] then None else Some (JStr [last s]))
      | JObj kvs \<Rightarrow> map_of kvs ''NaN''
      | _ \<Rightarrow> None)"

definition TWO_MINUTES_MS :: int where
  "TWO_MINUTES_MS = 2 * 60 * 1000"

text \<open>
  \<^verbatim>\<open>isDuplicateEntry\<close>. The two readings of the platform are parameters: \<open>dateValue v\<close> is
  \<^verbatim>\<open>new Date(v).getTime()\<close> for a JSON value \<open>v\<close>, in milliseconds, \<open>None\<close> being
  \<^verbatim>\<open>NaN\<close>; \<open>now\<close> is \<^verbatim>\<open>Date.now()\<close>. \<^verbatim>\<open>new Date(undefined)\<close> is an invalid date, and
  every comparison with \<^verbatim>\<open>NaN\<close> is false.
\<close>

definition isDuplicateEntry ::
  "(json \<Rightarrow> int option) \<Rightarrow> int \<Rightarrow> fs \<Rightarrow> path \<Rightarrow> string \<Rightarrow> error + bool" where
  "isDuplicateEntry dateValue now fs filePath aiPrompt' =
     (case readLogFile fs filePath of
        Inl err \<Rightarrow> Inl err
      | Inr entries \<Rightarrow>
          (case length_is_zero entries of
             Inl err \<Rightarrow> Inl err
           | Inr True \<Rightarrow> Inr False
           | Inr False \<Rightarrow>
               (case last_element entries of
                  None \<Rightarrow> Inl TypeError
                | Some JNull \<Rightarrow> Inl TypeError
                | Some last' \<Rightarrow>
                    (let lastPrompt =
                           nullish (js_get last' ''aiPrompt'')
                             (nullish (js_get last' ''description'') (Some (JStr [])))
                     in if lastPrompt \<noteq> Some (JStr aiPrompt') then Inr False
                        else
                          (let lastTime =
                                 (case js_get last' ''timestamp'' of
                                    None \<Rightarrow> None
                                  | Some t \<Rightarrow> dateValue t)
                           in Inr (case lastTime of
                                     None \<Rightarrow> False
                                   | Some t \<Rightarrow> now - t < TWO_MINUTES_MS))))))"

subsection \<open>The generative service (\<^verbatim>\<open>utils/geminiHelper.ts\<close>)\<close>

text \<open>
  One request is \<^verbatim>\<open>getModel(apiKey, modelName).generateContent(prompt)\<close> followed by
  \<^verbatim>\<open>result.response.text()\<close>: it yields the response text, or it throws. The service is a
  parameter; its answer may depend on every request made before, so it is a function of that
  history and of the request. What it throws is an \<^verbatim>\<open>Error\<close> object, as the SDK's errors
  are. The world the helper acts on is the list of requests made so far and the console.
\<close>

type_synonym request = "string \<times> string \<times> string"

type_synonym service = "request list \<Rightarrow> request \<Rightarrow> error + string"

datatype console_line =
    Warn_model_failed string error
  | Error_summarizeCode error
  | Error_generateTimesheetFromLogs error

record world =
  requests :: "request list"
  console :: "console_line list"

definition FALLBACK_MODELS :: "string list" where
  "FALLBACK_MODELS = [''gemini-3-flash-preview'', ''gemini-2.5-pro'', ''gemini-2.5-flash'']"

text \<open>
  One attempt, the body of the loop's \<^verbatim>\<open>try\<close> block for one model: the request is made
  (and recorded), and the attempt returns the response text trimmed, or throws what the request
  threw.
\<close>

definition attempt ::
  "service \<Rightarrow> string \<Rightarrow> string \<Rightarrow> string \<Rightarrow> world \<Rightarrow> (error + string) \<times> world" where
  "attempt svc apiKey modelName prompt w =
     (case svc (requests w) (apiKey, modelName, prompt) of
        Inl err \<Rightarrow> (Inl err, w\<lparr>requests := requests w @ [(apiKey, modelName, prompt)]\<rparr>)
      | Inr text \<Rightarrow>
          (Inr (trim text), w\<lparr>requests := requests w @ [(apiKey, modelName, prompt)]\<rparr>))"

text \<open>
  \<^verbatim>\<open>generateContentWithFallback\<close>: the \<^verbatim>\<open>for\<close> loop over the models, with
  \<^verbatim>\<open>lastError\<close> as its accumulator (\<open>None\<close> while it is \<^verbatim>\<open>undefined\<close>). The first attempt
  that returns ends the loop with its result; a failure is logged as a warning and the loop goes
  on; after the loop the last error is thrown, or \<^verbatim>\<open>All fallback models failed.\<close> when
  there was none.
\<close>

fun fallback_loop ::
  "service \<Rightarrow> string \<Rightarrow> string \<Rightarrow> string list \<Rightarrow> error option \<Rightarrow> world
     \<Rightarrow> (error + string) \<times> world" where
  "fallback_loop svc apiKey prompt [] lastError w =
     (Inl (case lastError of None \<Rightarrow> AllFallbackModelsFailed | Some err \<Rightarrow> err), w)"
| "fallback_loop svc apiKey prompt (modelName # rest) lastError w =
     (case attempt svc apiKey modelName prompt w of
        (Inr result, w') \<Rightarrow> (Inr result, w')
      | (Inl err, w') \<Rightarrow>
          fallback_loop svc apiKey prompt rest (Some err)
            (w'\<lparr>console := console w' @ [Warn_model_failed modelName err]\<rparr>))"

definition generateContentWithFallback ::
  "service \<Rightarrow> string \<Rightarrow> string \<Rightarrow> string list \<Rightarrow> world \<Rightarrow> (error + string) \<times> world" where
  "generateContentWithFallback svc apiKey prompt models w =
     fallback_loop svc apiKey prompt models None w"

text \<open>The prompt of \<^verbatim>\<open>summarizeCode\<close>. An absent or empty task description is falsy and
  selects the general instruction.\<close>

definition summary_prompt :: "string \<Rightarrow> string option \<Rightarrow> string" where
  "summary_prompt codeSnippet taskDescription =
     (let contextInstruction =
        (case taskDescription of
           None \<Rightarrow>
             ''Summarize the following code snippet in 1-2 concise sentences, focusing on what it does and any notable patterns.''
         | Some t \<Rightarrow>
             if t = [] then
               ''Summarize the following code snippet in 1-2 concise sentences, focusing on what it does and any notable patterns.''
             else
               ''The user is currently executing the following task: '' @ [CHR 0x22] @ t @ [CHR 0x22]
               @ ''. Summarize how this code snippet relates to or facilitates this task in 1-2 concise sentences. If the code seems unrelated to the task, just summarize what the code does.'')
      in ''You are a developer assistant. '' @ contextInstruction
         @ '' Do not include code in your reply.'' @ [CHR 0x0A, CHR 0x0A]
         @ ''```'' @ [CHR 0x0A] @ codeSnippet @ [CHR 0x0A] @ ''```'')"

text \<open>\<^verbatim>\<open>summarizeCode\<close>: a placeholder at once for a blank snippet; otherwise the fallback
  loop, whose failure is caught, logged and replaced by the other placeholder.\<close>

definition summarizeCode ::
  "service \<Rightarrow> string \<Rightarrow> string \<Rightarrow> string option \<Rightarrow> world \<Rightarrow> (error + string) \<times> world" where
  "summarizeCode svc apiKey codeSnippet taskDescription w =
     (if trim codeSnippet = [] then (Inr ''(no code context available)'', w)
      else
        (case generateContentWithFallback svc apiKey (summary_prompt codeSnippet taskDescription)
                FALLBACK_MODELS w of
           (Inr text, w') \<Rightarrow> (Inr text, w')
         | (Inl err, w') \<Rightarrow>
             (Inr ''(AI summary unavailable)'',
              w'\<lparr>console := console w' @ [Error_summarizeCode err]\<rparr>)))"

text \<open>The prompt of \<^verbatim>\<open>generateTimesheetFromLogs\<close>: the rules, the schema and the entries
  as \<^verbatim>\<open>JSON.stringify(entries, null, 2)\<close>.\<close>

definition timesheet_prompt :: "json \<Rightarrow> string \<Rightarrow> string" where
  \<open>timesheet_prompt logEntries dateStr =
     ''You are a project manager assistant. Given the following development activity log entries for ''
     @ dateStr @ '', produce a structured daily timesheet in strict JSON format.

Rules:
1. Group entries into continuous task blocks. Each block should be under 1 hour.
2. Merge repeated tasks (e.g. Task A '' @ [CHR 0xE2, CHR 0x86, CHR 0x92] @ '' Task B ''
     @ [CHR 0xE2, CHR 0x86, CHR 0x92] @ '' Task A merges into a single Task A block).
3. Assign a descriptive category to each group (e.g. "Coding: Auth Feature", "Debugging", "Code Review").
4. Infer start/end times from the timestamps of the log entries.
5. Output ONLY valid JSON matching this exact schema '' @ [CHR 0xE2, CHR 0x80, CHR 0x94]
     @ '' no markdown, no explanation:

{
  "date": "YYYY-MM-DD",
  "tasks": [
    {
      "category": "string",
      "entries": [
        { "task": "string", "start": "HH:MM", "end": "HH:MM" }
      ]
    }
  ]
}

Log entries:
'' @ JSON_stringify logEntries\<close>

text \<open>
  The two replacements applied to the response. \<^verbatim>\<open>/^```(?:json)?\s*/i\<close> matches only at the
  start: three backquotes, then \<^verbatim>\<open>json\<close> in any case if it is there, then all the white
  space that follows. \<^verbatim>\<open>/\s*```$/i\<close> matches only at the end: the final three backquotes
  together with all the white space before them.
\<close>

definition strip_opening_fence :: "string \<Rightarrow> string" where
  "strip_opening_fence text =
     (if starts_with ''```'' text then
        (let r = drop 3 text;
             r' = (if map to_lower (take 4 r) = ''json'' then drop 4 r else r)
         in trimStart r')
      else text)"

definition strip_closing_fence :: "string \<Rightarrow> string" where
  "strip_closing_fence text =
     (if ends_with ''```'' text then trimEnd (take (length text - 3) text) else text)"

text \<open>\<^verbatim>\<open>generateTimesheetFromLogs\<close>. The parsed value is returned under the cast
  \<^verbatim>\<open>as Timesheet\<close>, which checks nothing at run time. Whatever is thrown in the
  \<^verbatim>\<open>try\<close> block, by the fallback loop or by \<^verbatim>\<open>JSON.parse\<close>, is logged and wrapped in
  \<^verbatim>\<open>Gemini failed to generate a valid timesheet\<close>.\<close>

definition generateTimesheetFromLogs ::
  "service \<Rightarrow> string \<Rightarrow> json \<Rightarrow> string \<Rightarrow> world \<Rightarrow> (error + json) \<times> world" where
  "generateTimesheetFromLogs svc apiKey logEntries dateStr w =
     (case generateContentWithFallback svc apiKey (timesheet_prompt logEntries dateStr)
             FALLBACK_MODELS w of
        (Inl err, w') \<Rightarrow>
          (Inl (FailedToGenerateTimesheet err),
           w'\<lparr>console := console w' @ [Error_generateTimesheetFromLogs err]\<rparr>)
      | (Inr text, w') \<Rightarrow>
          (let text' = trim (strip_closing_fence (strip_opening_fence text)) in
           case JSON_parse text' of
             None \<Rightarrow>
               (Inl (FailedToGenerateTimesheet SyntaxError),
                w'\<lparr>console := console w' @ [Error_generateTimesheetFromLogs SyntaxError]\<rparr>)
           | Some parsed \<Rightarrow> (Inr parsed, w')))"

subsection \<open>The command (\<^verbatim>\<open>commands/generateTimesheet.ts\<close>)\<close>

text \<open>
  What the editor supplies to one run of the command: the date
  (\<^verbatim>\<open>getISTTimestamp().slice(0, 10)\<close>), the path \<^verbatim>\<open>resolveDayFilePath\<close> computes from the
  workspace folder and the settings (\<open>None\<close> without a workspace folder), the key
  \<^verbatim>\<open>getOrPromptApiKey\<close> ends with (\<open>None\<close> when the user cancels), and whether the user
  clicks \<^verbatim>\<open>Open File\<close> in the end. The command shows messages; they are collected.
\<close>

datatype suffix = logs | timesheet

datatype notice =
    No_workspace_folder
  | No_log_file string
  | Could_not_read_log_file error
  | Log_file_is_empty string
  | Api_key_required
  | Timesheet_generation_failed error
  | Unable_to_resolve_timesheet_path
  | Failed_to_save_timesheet error
  | Timesheet_saved path
  | Document_opened path

record session =
  today :: string
  resolveDayFilePath :: "string \<Rightarrow> suffix \<Rightarrow> path option"
  geminiApiKey :: "string option"
  clicksOpenFile :: bool

definition generateTimesheet ::
  "service \<Rightarrow> session \<Rightarrow> fs \<Rightarrow> world \<Rightarrow> (error + unit) \<times> fs \<times> world \<times> notice list" where
  "generateTimesheet svc s fs w =
     (let dateStr = today s in
      case resolveDayFilePath s dateStr logs of
        None \<Rightarrow> (Inr (), fs, w, [No_workspace_folder])
      | Some logFilePath \<Rightarrow>
          if \<not> fileExists fs logFilePath then (Inr (), fs, w, [No_log_file dateStr])
          else
            (case readLogFile fs logFilePath of
               Inl err \<Rightarrow> (Inr (), fs, w, [Could_not_read_log_file err])
             | Inr logEntries \<Rightarrow>
                 (case length_is_zero logEntries of
                    Inl err \<Rightarrow> (Inl err, fs, w, [])
                  | Inr True \<Rightarrow> (Inr (), fs, w, [Log_file_is_empty dateStr])
                  | Inr False \<Rightarrow>
                      (case geminiApiKey s of
                         None \<Rightarrow> (Inr (), fs, w, [Api_key_required])
                       | Some apiKey \<Rightarrow>
                           if apiKey = [] then (Inr (), fs, w, [Api_key_required])
                           else
                             (case generateTimesheetFromLogs svc apiKey logEntries dateStr w of
                                (Inl err, w') \<Rightarrow>
                                  (Inr (), fs, w', [Timesheet_generation_failed err])
                              | (Inr sheet, w') \<Rightarrow>
                                  (case resolveDayFilePath s dateStr timesheet of
                                     None \<Rightarrow>
                                       (Inr (), fs, w', [Unable_to_resolve_timesheet_path])
                                   | Some timesheetPath \<Rightarrow>
                                       (case writeTimesheetFile timesheetPath sheet fs of
                                          (Inl err, fs') \<Rightarrow>
                                            (Inr (), fs', w', [Failed_to_save_timesheet err])
                                        | (Inr _, fs') \<Rightarrow>
                                            (Inr (), fs', w',
                                             Timesheet_saved timesheetPath
                                             # (if clicksOpenFile s
                                                then [Document_opened timesheetPath]
                                                else [])))))))))"

subsection \<open>The specification's words\<close>

text \<open>
  Predicates that follow the specification rather than the code; the claims are stated with them
  and compared with what the code does.

  A Record, as the specification lists its fields: an object whose \<^verbatim>\<open>timestamp\<close>,
  \<^verbatim>\<open>description\<close>, \<^verbatim>\<open>aiPrompt\<close>, \<^verbatim>\<open>file\<close>, \<^verbatim>\<open>method\<close>,
  \<^verbatim>\<open>codeContextSnippetHash\<close> and \<^verbatim>\<open>summary\<close> are strings and whose \<^verbatim>\<open>source\<close> is one
  of the three capture tags. A text is a valid serialised sequence of Records when it parses to
  an array of Records.
\<close>

definition is_string :: "json option \<Rightarrow> bool" where
  "is_string v = (case v of Some (JStr s) \<Rightarrow> True | _ \<Rightarrow> False)"

definition is_Record :: "json \<Rightarrow> bool" where
  "is_Record r =
     (case r of
        JObj kvs \<Rightarrow>
          list_all (\<lambda>k. is_string (map_of kvs k))
            [''timestamp'', ''description'', ''aiPrompt'', ''file'', ''method'',
             ''codeContextSnippetHash'', ''summary'']
          \<and> map_of kvs ''source''
              \<in> set [Some (JStr ''manual''), Some (JStr ''clipboard''),
                     Some (JStr ''activeInputCapture'')]
      | _ \<Rightarrow> False)"

definition is_Record_sequence :: "json \<Rightarrow> bool" where
  "is_Record_sequence v = (case v of JArr xs \<Rightarrow> list_all is_Record xs | _ \<Rightarrow> False)"

definition valid_log_text :: "string \<Rightarrow> bool" where
  "valid_log_text text = (case JSON_parse text of Some v \<Rightarrow> is_Record_sequence v | None \<Rightarrow> False)"

text \<open>
  What the duplicate guard needs of the last record of a day log: an object with a string
  \<^verbatim>\<open>timestamp\<close>, a string \<^verbatim>\<open>description\<close>, and an \<^verbatim>\<open>aiPrompt\<close> that is a string or,
  as in the older schema, absent. Its prompt is its \<^verbatim>\<open>aiPrompt\<close>, or its \<^verbatim>\<open>description\<close>
  when it has no \<^verbatim>\<open>aiPrompt\<close>. Its timestamp is within two minutes of the current instant
  when it denotes a time less than 120000 milliseconds away from now, before or after; it is
  later than now when it denotes a time after the current instant.
\<close>

definition guard_record :: "json \<Rightarrow> bool" where
  "guard_record r =
     (case r of
        JObj kvs \<Rightarrow>
          is_string (map_of kvs ''timestamp'') \<and> is_string (map_of kvs ''description'')
          \<and> (map_of kvs ''aiPrompt'' = None \<or> is_string (map_of kvs ''aiPrompt''))
      | _ \<Rightarrow> False)"

definition record_prompt :: "json \<Rightarrow> json option" where
  "record_prompt r =
     (case js_get r ''aiPrompt'' of None \<Rightarrow> js_get r ''description'' | Some p \<Rightarrow> Some p)"

definition within_two_minutes :: "(json \<Rightarrow> int option) \<Rightarrow> int \<Rightarrow> json \<Rightarrow> bool" where
  "within_two_minutes dateValue now r =
     (case js_get r ''timestamp'' of
        None \<Rightarrow> False
      | Some t \<Rightarrow> (case dateValue t of None \<Rightarrow> False | Some ms \<Rightarrow> \<bar>now - ms\<bar> < 120000))"

definition later_than_now :: "(json \<Rightarrow> int option) \<Rightarrow> int \<Rightarrow> json \<Rightarrow> bool" where
  "later_than_now dateValue now r =
     (case js_get r ''timestamp'' of
        None \<Rightarrow> False
      | Some t \<Rightarrow> (case dateValue t of None \<Rightarrow> False | Some ms \<Rightarrow> now < ms))"

text \<open>
  The candidates' answers, for the fallback loop: \<open>sequential_failures svc history rs errs\<close>
  says that the requests \<open>rs\<close>, made once each and in this order after the requests of
  \<open>history\<close>, all fail, the one at position \<open>i\<close> with the error at position \<open>i\<close> of \<open>errs\<close>.
\<close>

fun sequential_failures :: "service \<Rightarrow> request list \<Rightarrow> request list \<Rightarrow> error list \<Rightarrow> bool" where
  "sequential_failures svc history [] errs = (errs = [])"
| "sequential_failures svc history (r # rs) errs =
     (case errs of
        [] \<Rightarrow> False
      | e # es \<Rightarrow> svc history r = Inl e \<and> sequential_failures svc (history @ [r]) rs es)"

text \<open>The warnings the loop logs for the candidates \<open>ms\<close> failing with \<open>errs\<close>: one line for
  each, in order.\<close>

definition warnings :: "string list \<Rightarrow> error list \<Rightarrow> console_line list" where
  "warnings ms errs = map (\<lambda>(m, e). Warn_model_failed m e) (zip ms errs)"

text \<open>
  The Timesheet type of \<^verbatim>\<open>types/timesheet.ts\<close> and the objects its values are at run time;
  \<open>is_Timesheet\<close> says that a JSON value has that shape:
  \<^verbatim>\<open>{date, tasks: [{category, entries: [{task, start, end}]}]}\<close>.
\<close>

record TimesheetEntry =
  task :: string
  start :: string
  end' :: string

record TimesheetCategory =
  category :: string
  entries :: "TimesheetEntry list"

record Timesheet =
  date :: string
  tasks :: "TimesheetCategory list"

definition TimesheetEntry_json :: "TimesheetEntry \<Rightarrow> json" where
  "TimesheetEntry_json t =
     JObj [(''task'', JStr (task t)), (''start'', JStr (start t)), (''end'', JStr (end' t))]"

definition TimesheetCategory_json :: "TimesheetCategory \<Rightarrow> json" where
  "TimesheetCategory_json c =
     JObj [(''category'', JStr (category c)),
           (''entries'', JArr (map TimesheetEntry_json (entries c)))]"

definition Timesheet_json :: "Timesheet \<Rightarrow> json" where
  "Timesheet_json t =
     JObj [(''date'', JStr (date t)), (''tasks'', JArr (map TimesheetCategory_json (tasks t)))]"

definition is_TimesheetEntry :: "json \<Rightarrow> bool" where
  "is_TimesheetEntry v =
     (case v of
        JObj kvs \<Rightarrow>
          is_string (map_of kvs ''task'') \<and> is_string (map_of kvs ''start'')
          \<and> is_string (map_of kvs ''end'')
      | _ \<Rightarrow> False)"

definition is_TimesheetCategory :: "json \<Rightarrow> bool" where
  "is_TimesheetCategory v =
     (case v of
        JObj kvs \<Rightarrow>
          is_string (map_of kvs ''category'')
          \<and> (case map_of kvs ''entries'' of
                Some (JArr es) \<Rightarrow> list_all is_TimesheetEntry es
              | _ \<Rightarrow> False)
      | _ \<Rightarrow> False)"

definition is_Timesheet :: "json \<Rightarrow> bool" where
  "is_Timesheet v =
     (case v of
        JObj kvs \<Rightarrow>
          is_string (map_of kvs ''date'')
          \<and> (case map_of kvs ''tasks'' of
                Some (JArr cs) \<Rightarrow> list_all is_TimesheetCategory cs
              | _ \<Rightarrow> False)
      | _ \<Rightarrow> False)"

text \<open>The white space characters of one byte; the fences of a response are separated from
  the JSON text by such characters.\<close>

definition is_space :: "char \<Rightarrow> bool" where
  "is_space c = ([c] \<in> set js_whitespace)"

subsection \<open>Example data\<close>

text \<open>A workspace whose log directory does not exist yet, the same workspace with the log
  directory, the day's log file, and two entries as the commands build them.\<close>

definition logs_dir :: path where
  "logs_dir = [''workspace'', ''.project-logs'']"

definition day_log :: path where
  "day_log = [''workspace'', ''.project-logs'', ''2026-02-28.logs.json'']"

definition day_timesheet :: path where
  "day_timesheet = [''workspace'', ''.project-logs'', ''2026-02-28.timesheet.json'']"

definition fresh_workspace :: fs where
  "fresh_workspace = [[] \<mapsto> Dir, [''workspace''] \<mapsto> Dir]"

definition workspace_with_logs_dir :: fs where
  "workspace_with_logs_dir = [[] \<mapsto> Dir, [''workspace''] \<mapsto> Dir, logs_dir \<mapsto> Dir]"

definition fix_bug :: LogEntry where
  "fix_bug =
     \<lparr>timestamp = ''2026-02-28T09:00:00.000Z'', description = ''fix bug'', aiPrompt = ''fix bug'',
      file' = ''/workspace/src/app.ts'', method' = ''main'',
      codeContextSnippetHash = ''e3b0c44298fc1c149afbf4c8996fb92427ae41e4649b934ca495991b7852b855'',
      summary = ''(no code context available)'', source = clipboard\<rparr>"

definition add_tests :: LogEntry where
  "add_tests =
     \<lparr>timestamp = ''2026-02-28T09:20:00.000Z'', description = ''add tests'', aiPrompt = ''add tests'',
      file' = ''/workspace/src/app.test.ts'', method' = '''',
      codeContextSnippetHash = ''e3b0c44298fc1c149afbf4c8996fb92427ae41e4649b934ca495991b7852b855'',
      summary = ''(AI summary unavailable)'', source = manual\<rparr>"

text \<open>A reading of \<^verbatim>\<open>new Date(_).getTime()\<close> that knows the two entries'
  timestamps: 09:00:00 UTC on 28 February 2026 is 1772269200000 milliseconds after the epoch,
  and 09:20:00 is 1200000 milliseconds later.\<close>

definition example_date :: "json \<Rightarrow> int option" where
  "example_date t =
     (if t = JStr ''2026-02-28T09:00:00.000Z'' then Some 1772269200000
      else if t = JStr ''2026-02-28T09:20:00.000Z'' then Some 1772270400000
      else None)"

text \<open>Four services: one that answers every request, one on which only the last candidate
  model answers, one on which only the second answers, one on which every request fails.\<close>

definition always_answers :: "string \<Rightarrow> service" where
  "always_answers text history r = Inr text"


definition pro_answers :: "string \<Rightarrow> service" where
  "pro_answers text history r =
     (case r of (k, m, p) \<Rightarrow>
        if m = ''gemini-2.5-pro'' then Inr text else Inl (ServiceError (''503 '' @ m)))"

definition nothing_answers :: service where
  "nothing_answers history r = (case r of (k, m, p) \<Rightarrow> Inl (ServiceError (''503 '' @ m)))"

definition quiet :: world where
  "quiet = \<lparr>requests = [], console = []\<rparr>"

text \<open>The timesheet of the specification's example, as text and as a value.\<close>

definition sample_text :: string where
  \<open>sample_text = ''{"date":"2026-02-28","tasks":[{"category":"Debugging","entries":[{"task":"Fix null check","start":"09:00","end":"09:30"}]}]}''\<close>

definition sample_timesheet :: Timesheet where
  "sample_timesheet =
     \<lparr>date = ''2026-02-28'',
      tasks = [\<lparr>category = ''Debugging'',
                entries = [\<lparr>task = ''Fix null check'', start = ''09:00'', end' = ''09:30''\<rparr>]\<rparr>]\<rparr>"

text \<open>A run of the command on 28 February 2026 in the workspace, with a stored key.\<close>

definition example_session :: session where
  "example_session =
     \<lparr>today = ''2026-02-28'',
      resolveDayFilePath =
        (\<lambda>d sfx. Some [''workspace'', ''.project-logs'',
                         d @ (case sfx of logs \<Rightarrow> ''.logs.json'' | timesheet \<Rightarrow> ''.timesheet.json'')]),
      geminiApiKey = Some ''AIza-example'',
      clicksOpenFile = False\<rparr>"

text \<open>The workspace at the end of the day: the day's log with one entry, and a timesheet
  generated earlier.\<close>

definition workspace_with_timesheet :: fs where
  "workspace_with_timesheet =
     [[] \<mapsto> Dir, [''workspace''] \<mapsto> Dir, logs_dir \<mapsto> Dir,
      day_log \<mapsto> File (JSON_stringify (JArr [LogEntry_json fix_bug])),
      day_timesheet \<mapsto> File (JSON_stringify (Timesheet_json sample_timesheet))]"

section \<open>Proofs\<close>

subsection \<open>Parsing what was serialised\<close>

lemma hex_val_hex_digit: "n < 16 \<Longrightarrow> hex_val (hex_digit n) = Some n"
  by (auto simp: hex_val_def hex_digit_def Let_def)

lemma escape_char_parse:
  "parse_chars (escape_char c @ rest) = map_option (\<lambda>(s, r'). (c # s, r')) (parse_chars rest)"
proof (cases "c = CHR 0x08 \<or> c = CHR 0x09 \<or> c = CHR 0x0A \<or> c = CHR 0x0C \<or> c = CHR 0x0D \<or> c = CHR 0x22 \<or> c = CHR 0x5C")
  case True
  then show ?thesis
    by (auto simp: escape_char_def simple_escape_def)
next
  case False
  show ?thesis
  proof (cases "(of_char c :: nat) < 0x20")
    case True
    let ?n = "of_char c :: nat"
    have d1: "?n div 16 < 16" using True by simp
    have d0: "?n mod 16 < 16" by simp
    have h: "hex4 CHR ''0'' CHR ''0'' (hex_digit (?n div 16)) (hex_digit (?n mod 16)) = Some ?n"
      using hex_val_hex_digit[OF d1] hex_val_hex_digit[OF d0]
      by (simp add: hex4_def hex_val_def)
    have u: "unicode_escape (CHR ''0'' # CHR ''0'' # hex_digit (?n div 16) # hex_digit (?n mod 16) # rest)
        = Some ([c], rest)"
      using True by (simp add: unicode_escape_def h utf8_encode_def)
    show ?thesis
      using False True by (simp add: escape_char_def u)
  next
    case ge: False
    then show ?thesis
      using False by (simp add: escape_char_def)
  qed
qed

lemma parse_chars_escaped:
  "parse_chars (concat (map escape_char s) @ CHR 0x22 # rest) = Some (s, rest)"
  by (induction s) (simp_all add: escape_char_parse)

lemma skip_ws_indent [simp]: "skip_ws (CHR 0x0A # replicate m CHR '' '' @ s) = skip_ws s"
proof -
  have "dropWhile is_json_ws (replicate m CHR '' '' @ s) = dropWhile is_json_ws s"
    by (rule dropWhile_append2) (simp add: is_json_ws_def)
  then show ?thesis
    by (simp add: skip_ws_def is_json_ws_def)
qed

lemma skip_ws_space [simp]: "skip_ws (CHR '' '' # s) = skip_ws s"
  by (simp add: skip_ws_def is_json_ws_def)

lemma skip_ws_token: "\<not> is_json_ws c \<Longrightarrow> skip_ws (c # s) = c # s"
  by (simp add: skip_ws_def)

lemma parse_value_skip: "skip_ws a = skip_ws b \<Longrightarrow> parse_value a = parse_value b"
  by (simp add: parse_value.simps)

lemma parse_value_indent [simp]:
  "parse_value (CHR 0x0A # replicate m CHR '' '' @ s) = parse_value s"
  by (rule parse_value_skip) simp

lemma parse_value_space [simp]: "parse_value (CHR '' '' # s) = parse_value s"
  by (rule parse_value_skip) simp

lemma Serialize_first: "plain v \<Longrightarrow> \<exists>c t. SerializeJSON n v = c # t \<and> opens_value c"
  by (cases v) (auto simp: opens_value_def QuoteJSONString_def)

lemma opens_value_facts:
  "opens_value c \<Longrightarrow> \<not> is_json_ws c \<and> c \<noteq> CHR '']'' \<and> c \<noteq> CHR ''}''"
  by (auto simp: opens_value_def is_json_ws_def)

lemma parse_elements_Serialize:
  assumes IH: "\<And>x rest. x \<in> set (y # ys) \<Longrightarrow> parse_value (SerializeJSON m x @ rest) = Some (x, rest)"
    and pl: "\<forall>x \<in> set (y # ys). plain x"
  shows "parse_elements acc (CHR 0x0A # replicate m CHR '' '' @ SerializeJSON m y
            @ concat (map (\<lambda>x. ('','' @ [CHR 0x0A] @ replicate m CHR '' '') @ SerializeJSON m x) ys)
            @ CHR 0x0A # replicate n CHR '' '' @ CHR '']'' # rest)
         = Some (JArr (acc @ y # ys), rest)"
  using IH pl
proof (induction ys arbitrary: acc y)
  case Nil
  obtain c t where ct: "SerializeJSON m y = c # t" using Serialize_first[of y m] Nil.prems(2) by auto
  have "parse_value (SerializeJSON m y @ CHR 0x0A # replicate n CHR '' '' @ CHR '']'' # rest)
        = Some (y, CHR 0x0A # replicate n CHR '' '' @ CHR '']'' # rest)"
    using Nil.prems(1) by simp
  then show ?case
    by (simp add: parse_elements.simps[of acc] ct skip_ws_token is_json_ws_def)
next
  case (Cons z zs)
  obtain c t where ct: "SerializeJSON m y = c # t" using Serialize_first[of y m] Cons.prems(2) by auto
  let ?tail = "CHR 0x0A # replicate m CHR '' '' @ SerializeJSON m z
            @ concat (map (\<lambda>x. ('','' @ [CHR 0x0A] @ replicate m CHR '' '') @ SerializeJSON m x) zs)
            @ CHR 0x0A # replicate n CHR '' '' @ CHR '']'' # rest"
  have pv: "parse_value (SerializeJSON m y @ CHR '','' # ?tail) = Some (y, CHR '','' # ?tail)"
    using Cons.prems(1) by simp
  have rec: "parse_elements (acc @ [y]) ?tail = Some (JArr ((acc @ [y]) @ z # zs), rest)"
    by (rule Cons.IH) (use Cons.prems in auto)
  show ?case
    using pv rec
    by (simp add: parse_elements.simps[of acc] ct skip_ws_token is_json_ws_def)
qed


lemma parse_members_skip: "skip_ws a = skip_ws b \<Longrightarrow> parse_members acc a = parse_members acc b"
  by (simp add: parse_members.simps)

lemma obj_set_fresh: "k \<notin> fst ` set kvs \<Longrightarrow> obj_set k v kvs = kvs @ [(k, v)]"
  by (simp add: obj_set_def)

lemma parse_member_raw:
  assumes pv: "parse_value X = Some (v, tail)"
    and len: "length tail < Suc (length X)"
  shows "parse_members acc (CHR 0x22 # concat (map escape_char k) @ CHR 0x22 # CHR '':'' # CHR '' '' # X)
     = (case skip_ws tail of
          [] \<Rightarrow> None
        | e # r4 \<Rightarrow>
            (if e = CHR '','' then parse_members (obj_set k v acc) r4
             else if e = CHR ''}'' then Some (JObj (obj_set k v acc), r4)
             else None))"
  by (subst parse_members.simps)
     (simp add: skip_ws_token is_json_ws_def parse_chars_escaped pv len)

lemma parse_member_step:
  assumes pv: "parse_value (SerializeJSON m v @ tail) = Some (v, tail)"
    and pl: "plain v"
  shows "parse_members acc (CHR 0x0A # replicate m CHR '' '' @ QuoteJSONString k @ '': '' @ SerializeJSON m v @ tail)
     = (case skip_ws tail of
          [] \<Rightarrow> None
        | e # r4 \<Rightarrow>
            (if e = CHR '','' then parse_members (obj_set k v acc) r4
             else if e = CHR ''}'' then Some (JObj (obj_set k v acc), r4)
             else None))"
proof -
  let ?body = "QuoteJSONString k @ '': '' @ SerializeJSON m v @ tail"
  obtain c t where ct: "SerializeJSON m v = c # t" using Serialize_first[OF pl, of m] by auto
  have a: "parse_members acc (CHR 0x0A # replicate m CHR '' '' @ ?body) = parse_members acc ?body"
    by (rule parse_members_skip) simp
  have e: "parse_value (SerializeJSON m v @ tail) = Some (v, tail)"
    using pv by simp
  have len: "length tail < Suc (length (SerializeJSON m v @ tail))"
    by simp
  show ?thesis
    unfolding a using parse_member_raw[OF e len, of acc k]
    by (simp add: QuoteJSONString_def)
qed

lemma parse_members_Serialize:
  assumes IH: "\<And>x rest. x \<in> set (map snd (p # ps)) \<Longrightarrow> parse_value (SerializeJSON m x @ rest) = Some (x, rest)"
    and pl: "\<forall>x \<in> set (map snd (p # ps)). plain x"
    and dist: "distinct (map fst acc @ map fst (p # ps))"
  shows "parse_members acc (CHR 0x0A # replicate m CHR '' '' @ (QuoteJSONString (fst p) @ '': '' @ SerializeJSON m (snd p))
            @ concat (map (\<lambda>x. ('','' @ [CHR 0x0A] @ replicate m CHR '' '') @ (case x of (k, v) \<Rightarrow> QuoteJSONString k @ '': '' @ SerializeJSON m v)) ps)
            @ CHR 0x0A # replicate n CHR '' '' @ CHR ''}'' # rest)
         = Some (JObj (acc @ p # ps), rest)"
  using IH pl dist
proof (induction ps arbitrary: acc p)
  case Nil
  obtain k v where p: "p = (k, v)" by (cases p)
  have fresh: "k \<notin> fst ` set acc" using Nil.prems(3) p by auto
  have pv: "parse_value (SerializeJSON m v @ CHR 0x0A # replicate n CHR '' '' @ CHR ''}'' # rest)
      = Some (v, CHR 0x0A # replicate n CHR '' '' @ CHR ''}'' # rest)"
    using Nil.prems(1) p by simp
  have plv: "plain v" using Nil.prems(2) p by simp
  show ?case
    using parse_member_step[OF pv plv, of acc k]
    by (simp add: p skip_ws_token is_json_ws_def obj_set_fresh[OF fresh])
next
  case (Cons q qs)
  obtain k v where p: "p = (k, v)" by (cases p)
  have fresh: "k \<notin> fst ` set acc" using Cons.prems(3) p by auto
  let ?tail = "CHR 0x0A # replicate m CHR '' '' @ (QuoteJSONString (fst q) @ '': '' @ SerializeJSON m (snd q))
            @ concat (map (\<lambda>x. ('','' @ [CHR 0x0A] @ replicate m CHR '' '') @ (case x of (k, v) \<Rightarrow> QuoteJSONString k @ '': '' @ SerializeJSON m v)) qs)
            @ CHR 0x0A # replicate n CHR '' '' @ CHR ''}'' # rest"
  have pv: "parse_value (SerializeJSON m v @ CHR '','' # ?tail) = Some (v, CHR '','' # ?tail)"
    using Cons.prems(1) p by simp
  have plv: "plain v" using Cons.prems(2) p by simp
  have rec: "parse_members (acc @ [p]) ?tail = Some (JObj ((acc @ [p]) @ q # qs), rest)"
    by (rule Cons.IH) (use Cons.prems p in auto)
  show ?case
    using parse_member_step[OF pv plv, of acc k] rec
    by (simp add: p skip_ws_token is_json_ws_def obj_set_fresh[OF fresh] split_def)
qed

lemma join_Cons: "join sep (x # xs) = x @ concat (map (\<lambda>y. sep @ y) xs)"
  by (simp add: join_def)

lemma parse_value_open_array:
  assumes "skip_ws s = c # t" and "c \<noteq> CHR '']''"
  shows "parse_value (CHR ''['' # s) = parse_elements [] s"
  by (subst parse_value.simps) (simp add: skip_ws_token is_json_ws_def assms)

lemma parse_value_open_object:
  assumes "skip_ws s = c # t" and "c \<noteq> CHR ''}''"
  shows "parse_value (CHR ''{'' # s) = parse_members [] s"
  by (subst parse_value.simps) (simp add: skip_ws_token is_json_ws_def assms)

lemma Serialize_JArr_Cons:
  "SerializeJSON n (JArr (y # ys)) @ rest =
     CHR ''['' # (CHR 0x0A # replicate (n + 2) CHR '' '' @ SerializeJSON (n + 2) y
        @ concat (map (\<lambda>x. ('','' @ [CHR 0x0A] @ replicate (n + 2) CHR '' '') @ SerializeJSON (n + 2) x) ys)
        @ CHR 0x0A # replicate n CHR '' '' @ CHR '']'' # rest)"
  by (simp add: join_Cons comp_def)

lemma Serialize_JObj_Cons:
  "SerializeJSON n (JObj (p # ps)) @ rest =
     CHR ''{'' # (CHR 0x0A # replicate (n + 2) CHR '' '' @ (QuoteJSONString (fst p) @ '': '' @ SerializeJSON (n + 2) (snd p))
        @ concat (map (\<lambda>x. ('','' @ [CHR 0x0A] @ replicate (n + 2) CHR '' '') @ (case x of (k, v) \<Rightarrow> QuoteJSONString k @ '': '' @ SerializeJSON (n + 2) v)) ps)
        @ CHR 0x0A # replicate n CHR '' '' @ CHR ''}'' # rest)"
  by (simp add: join_Cons comp_def split_def)

lemma parse_value_Serialize:
  "plain v \<Longrightarrow> parse_value (SerializeJSON n v @ rest) = Some (v, rest)"
proof (induction v arbitrary: n rest)
  case JNull
  show ?case by (simp add: parse_value.simps skip_ws_token is_json_ws_def starts_with_def)
next
  case (JBool b)
  show ?case by (simp add: parse_value.simps skip_ws_token is_json_ws_def starts_with_def)
next
  case (JNum l)
  then show ?case by simp
next
  case (JStr s)
  show ?case
    by (subst parse_value.simps)
       (simp add: QuoteJSONString_def skip_ws_token is_json_ws_def parse_chars_escaped)
next
  case (JArr xs)
  show ?case
  proof (cases xs)
    case Nil
    then show ?thesis by (simp add: parse_value.simps skip_ws_token is_json_ws_def)
  next
    case (Cons y ys)
    define m where "m = n + 2"
    have IH: "\<And>x rest. x \<in> set (y # ys) \<Longrightarrow> parse_value (SerializeJSON m x @ rest) = Some (x, rest)"
      using JArr Cons by (auto simp: list_all_iff)
    have pl: "\<forall>x \<in> set (y # ys). plain x" using JArr.prems Cons by (simp add: list_all_iff)
    obtain c t where ct: "SerializeJSON m y = c # t" and oc: "opens_value c"
      using Serialize_first[of y m] pl by auto
    let ?inner = "CHR 0x0A # replicate m CHR '' '' @ SerializeJSON m y
        @ concat (map (\<lambda>x. ('','' @ [CHR 0x0A] @ replicate m CHR '' '') @ SerializeJSON m x) ys)
        @ CHR 0x0A # replicate n CHR '' '' @ CHR '']'' # rest"
    have nws: "\<not> is_json_ws c" and nclose: "c \<noteq> CHR '']''"
      using opens_value_facts[OF oc] by simp_all
    have "\<exists>t'. skip_ws ?inner = c # t'"
      by (simp add: ct skip_ws_token[OF nws])
    then obtain t' where sk: "skip_ws ?inner = c # t'" ..
    have "parse_value (CHR ''['' # ?inner) = parse_elements [] ?inner"
      using sk nclose by (rule parse_value_open_array)
    also have "\<dots> = Some (JArr ([] @ y # ys), rest)"
      by (rule parse_elements_Serialize[OF IH pl])
    finally have "parse_value (CHR ''['' # ?inner) = Some (JArr (y # ys), rest)"
      by simp
    then show ?thesis
      unfolding Cons Serialize_JArr_Cons m_def .
  qed
next
  case (JObj kvs)
  show ?case
  proof (cases kvs)
    case Nil
    then show ?thesis by (simp add: parse_value.simps skip_ws_token is_json_ws_def)
  next
    case (Cons p ps)
    define m where "m = n + 2"
    have pl: "\<forall>x \<in> set (map snd (p # ps)). plain x" using JObj.prems Cons by (simp add: list_all_iff)
    have IH: "parse_value (SerializeJSON m x @ rest) = Some (x, rest)"
      if "x \<in> set (map snd (p # ps))" for x rest
    proof -
      from that have "x \<in> snd ` set kvs" using Cons by simp
      then obtain q where q: "q \<in> set kvs" "x = snd q" by blast
      have "x \<in> Basic_BNFs.snds q" using q(2) by (cases q) simp
      moreover have "plain x" using pl that by blast
      ultimately show ?thesis using JObj.IH[OF q(1)] by blast
    qed
    have dist: "distinct (map fst [] @ map fst (p # ps))" using JObj.prems Cons by simp
    let ?inner = "CHR 0x0A # replicate m CHR '' '' @ (QuoteJSONString (fst p) @ '': '' @ SerializeJSON m (snd p))
        @ concat (map (\<lambda>x. ('','' @ [CHR 0x0A] @ replicate m CHR '' '') @ (case x of (k, v) \<Rightarrow> QuoteJSONString k @ '': '' @ SerializeJSON m v)) ps)
        @ CHR 0x0A # replicate n CHR '' '' @ CHR ''}'' # rest"
    have "\<exists>t. skip_ws ?inner = CHR 0x22 # t"
      by (simp add: QuoteJSONString_def skip_ws_token is_json_ws_def)
    then obtain t where skt: "skip_ws ?inner = CHR 0x22 # t" ..
    have "parse_value (CHR ''{'' # ?inner) = parse_members [] ?inner"
      using skt by (rule parse_value_open_object) simp
    also have "\<dots> = Some (JObj ([] @ p # ps), rest)"
      by (rule parse_members_Serialize[OF IH pl dist])
    finally have "parse_value (CHR ''{'' # ?inner) = Some (JObj (p # ps), rest)"
      by simp
    then show ?thesis
      unfolding Cons Serialize_JObj_Cons m_def .
  qed
qed

subsection \<open>Trimming and reading what was written\<close>

lemma strip_leading_keep:
  assumes "\<forall>w \<in> set ws. w \<noteq> [] \<longrightarrow> hd w \<noteq> c"
  shows "strip_leading ws (c # cs) = c # cs"
proof -
  have "find (\<lambda>w. w \<noteq> [] \<and> take (length w) (c # cs) = w) ws = None"
    unfolding find_None_iff
  proof (intro notI, elim exE conjE)
    fix w assume w: "w \<in> set ws" "w \<noteq> []" "take (length w) (c # cs) = w"
    from w(2) obtain a w' where "w = a # w'" by (cases w) auto
    with w(3) have "hd w = c" by simp
    with assms w(1,2) show False by blast
  qed
  then show ?thesis by simp
qed

lemma js_whitespace_nonempty: "\<forall>w \<in> set js_whitespace. w \<noteq> []"
  by (simp add: js_whitespace_def)

lemma trimStart_keep: "c \<notin> set ws_first \<Longrightarrow> trimStart (c # cs) = c # cs"
  unfolding trimStart_def ws_first_def
  by (rule strip_leading_keep) auto

lemma trimEnd_keep:
  assumes "c \<notin> set ws_last"
  shows "trimEnd (cs @ [c]) = cs @ [c]"
proof -
  have "strip_leading (map rev js_whitespace) (c # rev cs) = c # rev cs"
  proof (rule strip_leading_keep, intro ballI impI)
    fix w assume "w \<in> set (map rev js_whitespace)" "w \<noteq> []"
    then obtain u where u: "u \<in> set js_whitespace" "w = rev u" "u \<noteq> []" by auto
    then have "hd w = last u" by (simp add: hd_rev)
    moreover have "last u \<in> set ws_last" using u(1) by (simp add: ws_last_def)
    ultimately show "hd w \<noteq> c" using assms by auto
  qed
  then show ?thesis by (simp add: trimEnd_def)
qed

lemma trim_keep:
  assumes "s \<noteq> []" "hd s \<notin> set ws_first" "last s \<notin> set ws_last"
  shows "trim s = s"
proof -
  obtain c cs where s: "s = c # cs" using assms(1) by (cases s) auto
  have a: "trimStart s = s" using assms(2) s by (simp add: trimStart_keep)
  obtain bs b where sb: "s = bs @ [b]" using assms(1) by (cases s rule: rev_cases) auto
  have "trimEnd s = s" using assms(3) sb by (simp add: trimEnd_keep)
  with a show ?thesis by (simp add: trim_def)
qed

lemma Serialize_last: "plain v \<Longrightarrow> SerializeJSON n v \<noteq> [] \<and> closes_value (last (SerializeJSON n v))"
  by (cases v) (auto simp: closes_value_def QuoteJSONString_def)

lemma opens_not_ws: "opens_value c \<Longrightarrow> c \<notin> set ws_first"
  by (auto simp: opens_value_def ws_first_def js_whitespace_def)

lemma closes_not_ws: "closes_value c \<Longrightarrow> c \<notin> set ws_last"
  by (auto simp: closes_value_def ws_last_def js_whitespace_def)

lemma trim_stringify: "plain v \<Longrightarrow> trim (JSON_stringify v) = JSON_stringify v"
proof -
  assume pl: "plain v"
  obtain c t where ct: "SerializeJSON 0 v = c # t" "opens_value c"
    using Serialize_first[OF pl, of 0] by auto
  have l: "closes_value (last (SerializeJSON 0 v))" using Serialize_last[OF pl, of 0] by simp
  show ?thesis
    unfolding JSON_stringify_def
    by (rule trim_keep) (use ct l opens_not_ws closes_not_ws in auto)
qed

lemma stringify_nonempty: "plain v \<Longrightarrow> JSON_stringify v \<noteq> []"
  using Serialize_last[of v 0] by (simp add: JSON_stringify_def)

lemma JSON_parse_stringify: "plain v \<Longrightarrow> JSON_parse (JSON_stringify v) = Some v"
  using parse_value_Serialize[of v 0 "[]"]
  by (simp add: JSON_parse_def JSON_stringify_def skip_ws_def)

lemma readLogFile_stringified:
  "plain v \<Longrightarrow> fs p = Some (File (JSON_stringify v)) \<Longrightarrow> readLogFile fs p = Inr v"
  by (simp add: readLogFile_def existsSync_def readFileSync_def trim_stringify
      stringify_nonempty JSON_parse_stringify)

lemma plain_LogEntry [simp]: "plain (LogEntry_json e)"
  by (simp add: LogEntry_json_def)

lemma plain_LogEntries: "plain (JArr (map LogEntry_json es))"
  by (simp add: list_all_iff)

lemma writeFileSync_ok:
  "writeFileSync p data fs = (Inr (), fs') \<Longrightarrow> fs' = fs(p \<mapsto> File data)"
  by (auto simp: writeFileSync_def split: option.splits node.splits if_splits)

lemma writeFileSync_succeeds:
  assumes "list_all (\<lambda>q. fs q = Some Dir) (ancestors (dirname p))" and "fs p \<noteq> Some Dir"
  shows "writeFileSync p data fs = (Inr (), fs(p \<mapsto> File data))"
proof -
  have "find (\<lambda>q. fs q \<noteq> Some Dir) (ancestors (dirname p)) = None"
    using assms(1) by (simp add: find_None_iff list_all_iff)
  then show ?thesis
    using assms(2) by (auto simp: writeFileSync_def split: option.splits node.splits)
qed

lemma writeFileSync_fails:
  assumes "fs (dirname p) \<noteq> Some Dir"
  shows "\<exists>q. q \<in> set (ancestors (dirname p)) \<and> fs q \<noteq> Some Dir
     \<and> writeFileSync p data fs = (Inl (if is_file (fs q) then ENOTDIR else ENOENT), fs)"
proof -
  have "dirname p \<in> set (ancestors (dirname p))"
    by (simp add: ancestors_def image_iff)
  with assms have "find (\<lambda>q. fs q \<noteq> Some Dir) (ancestors (dirname p)) \<noteq> None"
    by (auto simp: find_None_iff)
  then obtain q where q: "find (\<lambda>q. fs q \<noteq> Some Dir) (ancestors (dirname p)) = Some q"
    by auto
  then have "q \<in> set (ancestors (dirname p)) \<and> fs q \<noteq> Some Dir"
    by (auto simp: find_Some_iff)
  with q show ?thesis by (auto simp: writeFileSync_def)
qed

lemma first_on_the_way:
  assumes "q \<in> set (ancestors d)" and "fs q \<noteq> Some Dir"
    and "list_all (\<lambda>r. fs r = Some Dir) (butlast (ancestors q))"
  shows "find (\<lambda>r. fs r \<noteq> Some Dir) (ancestors d) = Some q"
proof -
  from assms(1) have "q \<in> (\<lambda>n. take n d) ` {0..<Suc (length d)}"
    by (simp add: ancestors_def del: upt_Suc)
  then obtain k where k: "k \<le> length d" "q = take k d"
    by (auto simp: less_Suc_eq_le)
  then have len: "length q = k" by simp
  have bl: "butlast (ancestors q) = map (\<lambda>n. take n q) [0..<k]"
    by (simp add: ancestors_def len)
  have before: "fs (take j d) = Some Dir" if "j < k" for j
  proof -
    from that have "take j q \<in> set (butlast (ancestors q))" unfolding bl by simp
    moreover from that k have "take j q = take j d" by (simp add: min_def)
    ultimately show ?thesis using assms(3) by (auto simp: list_all_iff)
  qed
  have "k < length (ancestors d)" using k by (simp add: ancestors_def)
  moreover have "ancestors d ! k = q" using k by (simp add: ancestors_def nth_append del: upt_Suc)
  moreover have "\<forall>j<k. \<not> fs (ancestors d ! j) \<noteq> Some Dir"
    using before k by (simp add: ancestors_def del: upt_Suc)
  ultimately show ?thesis using assms(2) unfolding find_Some_iff by blast
qed

lemma self_in_ancestors: "d \<in> set (ancestors d)"
proof -
  have "take (length d) d \<in> (\<lambda>n. take n d) ` {0..<Suc (length d)}"
    by (rule imageI) simp
  then show ?thesis by (simp add: ancestors_def)
qed

lemma ancestors_shorter: "q \<in> set (ancestors d) \<Longrightarrow> length q \<le> length d"
  by (auto simp: ancestors_def)

lemma dirname_shorter: "p \<noteq> [] \<Longrightarrow> length (dirname p) < length p"
  by (cases p rule: rev_cases) (simp_all add: dirname_def)

lemma not_own_ancestor: "p \<noteq> [] \<Longrightarrow> p \<notin> set (ancestors (dirname p))"
  using ancestors_shorter[of p "dirname p"] dirname_shorter[of p] by auto

lemma ensureDir_ok:
  "ensureDir d fs = (Inr (), fs1) \<Longrightarrow> fs1 = (\<lambda>q. if q \<in> set (ancestors d) then Some Dir else fs q)"
  by (auto simp: ensureDir_def mkdirSync_recursive_def split: if_splits)

lemma ensureDir_succeeds:
  "list_all (\<lambda>q. \<not> is_file (fs q)) (ancestors d) \<Longrightarrow>
     ensureDir d fs = (Inr (), (\<lambda>q. if q \<in> set (ancestors d) then Some Dir else fs q))"
  by (auto simp: ensureDir_def mkdirSync_recursive_def list_all_iff list_ex_iff)

lemma ensureDir_dirs:
  "ensureDir d fs = (Inr (), fs1) \<Longrightarrow> list_all (\<lambda>q. fs1 q = Some Dir) (ancestors d)"
  using ensureDir_ok[of d fs fs1] by (simp add: list_all_iff)

lemma readLogFile_not_dir: "readLogFile fs p = Inr v \<Longrightarrow> fs p \<noteq> Some Dir"
  by (auto simp: readLogFile_def existsSync_def readFileSync_def split: if_splits)

subsection \<open>The fallback loop over failing candidates\<close>

lemma sequential_failures_length:
  "sequential_failures svc history rs errs \<Longrightarrow> length errs = length rs"
  by (induction rs arbitrary: history errs) (auto split: list.splits)

lemma fallback_loop_failures:
  "sequential_failures svc (requests w) (map (\<lambda>m. (k, m, p)) ms) errs \<Longrightarrow>
   fallback_loop svc k p (ms @ rest) le w =
     fallback_loop svc k p rest (if ms = [] then le else Some (last errs))
       (w\<lparr>requests := requests w @ map (\<lambda>m. (k, m, p)) ms,
          console := console w @ warnings ms errs\<rparr>)"
proof (induction ms arbitrary: errs le w)
  case Nil
  then show ?case by (simp add: warnings_def)
next
  case (Cons m ms)
  from Cons.prems obtain e es where errs: "errs = e # es"
    and e: "svc (requests w) (k, m, p) = Inl e"
    and es: "sequential_failures svc (requests w @ [(k, m, p)]) (map (\<lambda>m. (k, m, p)) ms) es"
    by (auto split: list.splits)
  let ?w = "w\<lparr>requests := requests w @ [(k, m, p)], console := console w @ [Warn_model_failed m e]\<rparr>"
  have step: "fallback_loop svc k p ((m # ms) @ rest) le w = fallback_loop svc k p (ms @ rest) (Some e) ?w"
    using e by (simp add: attempt_def)
  have es': "sequential_failures svc (requests ?w) (map (\<lambda>m. (k, m, p)) ms) es"
    using es by simp
  have len: "(es = []) = (ms = [])"
    using sequential_failures_length[OF es] by auto
  show ?case
    unfolding step Cons.IH[OF es']
    using len by (auto simp: errs warnings_def)
qed

subsection \<open>Stripping the fences of a response\<close>

lemma is_space_cases:
  "is_space c \<Longrightarrow> c = CHR 0x09 \<or> c = CHR 0x0A \<or> c = CHR 0x0B \<or> c = CHR 0x0C \<or> c = CHR 0x0D \<or> c = CHR 0x20"
  by (simp add: is_space_def js_whitespace_def)

lemma find_space_front:
  assumes "is_space c"
  shows "find (\<lambda>w. w \<noteq> [] \<and> take (length w) (c # s) = w) js_whitespace = Some [c]"
  using is_space_cases[OF assms]
  by (elim disjE) (simp_all add: js_whitespace_def)

lemma find_space_back:
  assumes "is_space c"
  shows "find (\<lambda>w. w \<noteq> [] \<and> take (length w) (c # s) = w) (map rev js_whitespace) = Some [c]"
  using is_space_cases[OF assms]
  by (elim disjE) (simp_all add: js_whitespace_def)

lemma strip_space_front:
  "is_space c \<Longrightarrow> strip_leading js_whitespace (c # s) = strip_leading js_whitespace s"
  by (simp add: find_space_front)

lemma strip_space_back:
  "is_space c \<Longrightarrow> strip_leading (map rev js_whitespace) (c # s) = strip_leading (map rev js_whitespace) s"
  by (simp add: find_space_back)

lemma trimStart_spaces: "list_all is_space ws \<Longrightarrow> trimStart (ws @ s) = trimStart s"
  by (induction ws) (simp_all add: trimStart_def strip_space_front del: strip_leading.simps)

lemma strip_back_spaces:
  "list_all is_space ws \<Longrightarrow>
     strip_leading (map rev js_whitespace) (ws @ s) = strip_leading (map rev js_whitespace) s"
  by (induction ws) (simp_all add: strip_space_back del: strip_leading.simps)

lemma trimEnd_spaces: "list_all is_space ws \<Longrightarrow> trimEnd (s @ ws) = trimEnd s"
  using strip_back_spaces[of "rev ws" "rev s"] by (simp add: trimEnd_def)

lemma brace_not_ws: "CHR ''{'' \<notin> set ws_first" "CHR ''}'' \<notin> set ws_last"
  by (simp_all add: ws_first_def ws_last_def js_whitespace_def)

lemma not_json_word:
  assumes "list_all is_space ws"
  shows "map to_lower (take 4 (ws @ CHR ''{'' # t)) \<noteq> ''json''"
proof (cases ws)
  case Nil
  then show ?thesis by (simp add: to_lower_def)
next
  case (Cons c cs)
  with assms have "is_space c" by simp
  then have "to_lower c \<noteq> CHR ''j''"
    by (auto dest!: is_space_cases simp: to_lower_def)
  then show ?thesis using Cons by auto
qed

lemma unfence:
  assumes open_brace: "body = CHR ''{'' # t"
    and close_brace: "body = b @ [CHR ''}'']"
    and ws1: "list_all is_space ws1"
    and ws2: "list_all is_space ws2"
  shows "trim (strip_closing_fence (strip_opening_fence (''```'' @ ws1 @ body @ ws2 @ ''```''))) = body"
    and "trim (strip_closing_fence (strip_opening_fence (''```json'' @ ws1 @ body @ ws2 @ ''```''))) = body"
    and "trim (strip_closing_fence (strip_opening_fence body)) = body"
proof -
  have ts: "trimStart (body @ r) = body @ r" for r
    using brace_not_ws(1) by (simp add: open_brace trimStart_keep)
  have te: "trimEnd body = body"
    using brace_not_ws(2) trimEnd_keep[of "CHR ''}''" b] by (simp add: close_brace)
  have tr: "trim body = body"
    using ts[of "[]"] te by (simp add: trim_def)
  have closing: "strip_closing_fence (body @ ws2 @ ''```'') = body"
  proof -
    have "ends_with ''```'' (body @ ws2 @ ''```'')" by (simp add: ends_with_def)
    moreover have "take (length (body @ ws2 @ ''```'') - 3) (body @ ws2 @ ''```'') = body @ ws2"
      by simp
    ultimately show ?thesis
      using trimEnd_spaces[OF ws2, of body] te by (simp add: strip_closing_fence_def)
  qed
  have o1: "strip_opening_fence (''```'' @ ws1 @ body @ ws2 @ ''```'') = body @ ws2 @ ''```''"
  proof -
    have nj: "map to_lower (take 4 (ws1 @ body @ ws2 @ ''```'')) \<noteq> ''json''"
      using not_json_word[OF ws1, of "t @ ws2 @ ''```''"] by (simp add: open_brace)
    show ?thesis
      using nj trimStart_spaces[OF ws1, of "body @ ws2 @ ''```''"] ts[of "ws2 @ ''```''"]
      by (simp add: strip_opening_fence_def starts_with_def)
  qed
  have o2: "strip_opening_fence (''```json'' @ ws1 @ body @ ws2 @ ''```'') = body @ ws2 @ ''```''"
    using trimStart_spaces[OF ws1, of "body @ ws2 @ ''```''"] ts[of "ws2 @ ''```''"]
    by (simp add: strip_opening_fence_def starts_with_def to_lower_def)
  show "trim (strip_closing_fence (strip_opening_fence (''```'' @ ws1 @ body @ ws2 @ ''```''))) = body"
    by (simp only: o1 closing tr)
  show "trim (strip_closing_fence (strip_opening_fence (''```json'' @ ws1 @ body @ ws2 @ ''```''))) = body"
    by (simp only: o2 closing tr)
  have "\<not> starts_with ''```'' body" by (simp add: open_brace starts_with_def)
  moreover have "\<not> ends_with ''```'' body" by (simp add: close_brace ends_with_def)
  ultimately show "trim (strip_closing_fence (strip_opening_fence body)) = body"
    by (simp add: strip_opening_fence_def strip_closing_fence_def tr)
qed

lemma sample_parses: "JSON_parse sample_text = Some (Timesheet_json sample_timesheet)"
  by code_simp

lemma sample_braces:
  "\<exists>t. sample_text = CHR ''{'' # t" "\<exists>b. sample_text = b @ [CHR ''}'']"
proof -
  show "\<exists>t. sample_text = CHR ''{'' # t" by (simp add: sample_text_def)
  have "sample_text = butlast sample_text @ [last sample_text]"
    by (rule append_butlast_last_id[symmetric]) (simp add: sample_text_def)
  moreover have "last sample_text = CHR ''}''" by code_simp
  ultimately show "\<exists>b. sample_text = b @ [CHR ''}'']" by metis
qed

subsection \<open>The log store\<close>

text \<open>
  Claim C9. Writing a sequence of records to a path and reading the path back gives the
  sequence that was written, in the same order: when \<^verbatim>\<open>writeLogFile\<close> returns, \<^verbatim>\<open>readLogFile\<close>
  of the same path in the resulting file system returns the array of the same entries.
\<close>

theorem write_read_roundtrip:
  assumes "writeLogFile filePath (JArr (map LogEntry_json es)) fs = (Inr (), fs')"
  shows "readLogFile fs' filePath = Inr (JArr (map LogEntry_json es))"
proof -
  have "fs' = fs(filePath \<mapsto> File (JSON_stringify (JArr (map LogEntry_json es))))"
    using assms unfolding writeLogFile_def by (rule writeFileSync_ok)
  moreover have "plain (JArr (map LogEntry_json es))"
    by (rule plain_LogEntries)
  ultimately show ?thesis
    by (intro readLogFile_stringified) simp_all
qed

text \<open>Two entries written to the day's log in a workspace that has the log directory.\<close>

theorem write_read_roundtrip_witness:
  "writeLogFile day_log (JArr (map LogEntry_json [fix_bug, add_tests])) workspace_with_logs_dir
     = (Inr (), workspace_with_logs_dir
          (day_log \<mapsto> File (JSON_stringify (JArr (map LogEntry_json [fix_bug, add_tests])))))
   \<and> readLogFile
        (workspace_with_logs_dir
          (day_log \<mapsto> File (JSON_stringify (JArr (map LogEntry_json [fix_bug, add_tests])))))
        day_log
     = Inr (JArr (map LogEntry_json [fix_bug, add_tests]))"
proof -
  have w: "writeLogFile day_log (JArr (map LogEntry_json [fix_bug, add_tests])) workspace_with_logs_dir
     = (Inr (), workspace_with_logs_dir
          (day_log \<mapsto> File (JSON_stringify (JArr (map LogEntry_json [fix_bug, add_tests])))))"
    unfolding writeLogFile_def
    by (rule writeFileSync_succeeds)
      (simp_all add: workspace_with_logs_dir_def day_log_def logs_dir_def dirname_def
        ancestors_def upt_rec)
  show ?thesis
    using w write_read_roundtrip[OF w] by simp
qed

text \<open>
  Claim C7. \<^verbatim>\<open>appendLogEntry\<close> is read-modify-write: once the parent directory is ensured,
  whatever sequence the file holds (the empty one when there is no file) gets the record pushed
  at its end and is written back in full. On a fresh path, one that does not exist and on whose
  way no file stands where a directory is needed, it creates the parent directory and the file,
  and reading the path back gives exactly the one record.
\<close>

theorem appendLogEntry_read_modify_write:
  "(\<forall>fs1 xs. ensureDir (dirname p) fs = (Inr (), fs1) \<and> readLogFile fs1 p = Inr (JArr xs) \<longrightarrow>
       appendLogEntry p (LogEntry_json e) fs
         = (Inr (), fs1(p \<mapsto> File (JSON_stringify (JArr (xs @ [LogEntry_json e]))))))
   \<and> (p \<noteq> [] \<and> \<not> existsSync fs p \<and> list_all (\<lambda>q. \<not> is_file (fs q)) (ancestors (dirname p)) \<longrightarrow>
        fst (appendLogEntry p (LogEntry_json e) fs) = Inr ()
        \<and> snd (appendLogEntry p (LogEntry_json e) fs) (dirname p) = Some Dir
        \<and> snd (appendLogEntry p (LogEntry_json e) fs) p
            = Some (File (JSON_stringify (JArr [LogEntry_json e])))
        \<and> readLogFile (snd (appendLogEntry p (LogEntry_json e) fs)) p = Inr (JArr [LogEntry_json e]))"
proof (rule conjI; intro allI impI)
  fix fs1 xs
  assume a: "ensureDir (dirname p) fs = (Inr (), fs1) \<and> readLogFile fs1 p = Inr (JArr xs)"
  then have d: "list_all (\<lambda>q. fs1 q = Some Dir) (ancestors (dirname p))"
    using ensureDir_dirs[of "dirname p" fs fs1] by simp
  have nd: "fs1 p \<noteq> Some Dir" using a readLogFile_not_dir by blast
  show "appendLogEntry p (LogEntry_json e) fs
         = (Inr (), fs1(p \<mapsto> File (JSON_stringify (JArr (xs @ [LogEntry_json e])))))"
    using a writeFileSync_succeeds[OF d nd]
    by (simp add: appendLogEntry_def push_def writeLogFile_def)
next
  assume b: "p \<noteq> [] \<and> \<not> existsSync fs p \<and> list_all (\<lambda>q. \<not> is_file (fs q)) (ancestors (dirname p))"
  define fs1 where "fs1 = (\<lambda>q. if q \<in> set (ancestors (dirname p)) then Some Dir else fs q)"
  have e1: "ensureDir (dirname p) fs = (Inr (), fs1)"
    unfolding fs1_def by (rule ensureDir_succeeds) (use b in simp)
  have none: "fs1 p = None"
    using b not_own_ancestor[of p] by (simp add: fs1_def existsSync_def)
  have r1: "readLogFile fs1 p = Inr (JArr [])"
    using none by (simp add: readLogFile_def existsSync_def)
  have d: "fs1 (dirname p) = Some Dir"
    using self_in_ancestors[of "dirname p"] by (simp add: fs1_def)
  have app: "appendLogEntry p (LogEntry_json e) fs
      = (Inr (), fs1(p \<mapsto> File (JSON_stringify (JArr [LogEntry_json e]))))"
    using e1 r1 writeFileSync_succeeds[of fs1 p, OF ensureDir_dirs[OF e1]] none
    by (simp add: appendLogEntry_def push_def writeLogFile_def)
  have np: "dirname p \<noteq> p" using b dirname_shorter[of p] by auto
  have rd: "readLogFile (fs1(p \<mapsto> File (JSON_stringify (JArr [LogEntry_json e])))) p = Inr (JArr [LogEntry_json e])"
    using plain_LogEntries[of "[e]"] by (intro readLogFile_stringified) simp_all
  show "fst (appendLogEntry p (LogEntry_json e) fs) = Inr ()
        \<and> snd (appendLogEntry p (LogEntry_json e) fs) (dirname p) = Some Dir
        \<and> snd (appendLogEntry p (LogEntry_json e) fs) p
            = Some (File (JSON_stringify (JArr [LogEntry_json e])))
        \<and> readLogFile (snd (appendLogEntry p (LogEntry_json e) fs)) p = Inr (JArr [LogEntry_json e])"
    using app d np rd by simp
qed

text \<open>A first entry in a workspace without a log directory, then a second one.\<close>

theorem appendLogEntry_read_modify_write_witness:
  "fst (appendLogEntry day_log (LogEntry_json fix_bug) fresh_workspace) = Inr ()
   \<and> snd (appendLogEntry day_log (LogEntry_json fix_bug) fresh_workspace) logs_dir = Some Dir
   \<and> snd (appendLogEntry day_log (LogEntry_json fix_bug) fresh_workspace) day_log
       = Some (File (JSON_stringify (JArr [LogEntry_json fix_bug])))
   \<and> readLogFile (snd (appendLogEntry day_log (LogEntry_json fix_bug) fresh_workspace)) day_log
       = Inr (JArr [LogEntry_json fix_bug])
   \<and> appendLogEntry day_log (LogEntry_json add_tests)
        (workspace_with_logs_dir
          (day_log \<mapsto> File (JSON_stringify (JArr [LogEntry_json fix_bug]))))
       = (Inr (), workspace_with_logs_dir
           (day_log \<mapsto> File (JSON_stringify (JArr [LogEntry_json fix_bug, LogEntry_json add_tests]))))"
proof -
  have fresh: "day_log \<noteq> [] \<and> \<not> existsSync fresh_workspace day_log
      \<and> list_all (\<lambda>q. \<not> is_file (fresh_workspace q)) (ancestors (dirname day_log))"
    by (simp add: day_log_def existsSync_def fresh_workspace_def list_all_iff is_file_def)
  have dn: "dirname day_log = logs_dir"
    by (simp add: dirname_def day_log_def logs_dir_def)
  let ?fs = "workspace_with_logs_dir (day_log \<mapsto> File (JSON_stringify (JArr [LogEntry_json fix_bug])))"
  have anc: "set (ancestors logs_dir) = {[], [''workspace''], logs_dir}"
    by (auto simp: ancestors_def logs_dir_def upt_rec)
  have nofile: "list_all (\<lambda>q. \<not> is_file (?fs q)) (ancestors logs_dir)"
    unfolding list_all_iff anc
    by (simp add: workspace_with_logs_dir_def logs_dir_def day_log_def is_file_def)
  have same: "(\<lambda>q. if q \<in> set (ancestors logs_dir) then Some Dir else ?fs q) = ?fs"
    unfolding anc by (rule ext) (simp add: workspace_with_logs_dir_def logs_dir_def day_log_def)
  have ens: "ensureDir (dirname day_log) ?fs = (Inr (), ?fs)"
    unfolding dn by (rule ensureDir_succeeds[OF nofile, unfolded same])
  have rd: "readLogFile ?fs day_log = Inr (JArr [LogEntry_json fix_bug])"
    using plain_LogEntries[of "[fix_bug]"] by (intro readLogFile_stringified) simp_all
  have second: "appendLogEntry day_log (LogEntry_json add_tests) ?fs
      = (Inr (), ?fs(day_log \<mapsto> File (JSON_stringify (JArr ([LogEntry_json fix_bug] @ [LogEntry_json add_tests])))))"
    using appendLogEntry_read_modify_write[of day_log ?fs add_tests, THEN conjunct1] ens rd
    by blast
  have first: "fst (appendLogEntry day_log (LogEntry_json fix_bug) fresh_workspace) = Inr ()
        \<and> snd (appendLogEntry day_log (LogEntry_json fix_bug) fresh_workspace) (dirname day_log) = Some Dir
        \<and> snd (appendLogEntry day_log (LogEntry_json fix_bug) fresh_workspace) day_log
            = Some (File (JSON_stringify (JArr [LogEntry_json fix_bug])))
        \<and> readLogFile (snd (appendLogEntry day_log (LogEntry_json fix_bug) fresh_workspace)) day_log
            = Inr (JArr [LogEntry_json fix_bug])"
    using appendLogEntry_read_modify_write[of day_log fresh_workspace fix_bug, THEN conjunct2] fresh
    by blast
  show ?thesis
    using first second by (simp add: dn)
qed

text \<open>
  Claim C8, as amended. \<^verbatim>\<open>writeLogFile\<close> serialises the whole value with an indentation of
  two spaces and replaces whatever the file held, provided every directory on the way to the
  file is there; it creates no directory. When the parent directory is not there it fails and
  leaves the file system as it was: with \<^verbatim>\<open>ENOENT\<close> when no regular file stands on the way,
  and with \<^verbatim>\<open>ENOTDIR\<close> when the first component on the way that is not a directory is a
  regular file. (The parent directory is created by \<^verbatim>\<open>appendLogEntry\<close>, before it reads.)
\<close>

theorem writeLogFile_needs_directory:
  "(list_all (\<lambda>q. fs q = Some Dir) (ancestors (dirname p)) \<and> fs p \<noteq> Some Dir \<longrightarrow>
      writeLogFile p v fs = (Inr (), fs(p \<mapsto> File (JSON_stringify v))))
   \<and> (fs (dirname p) \<noteq> Some Dir \<longrightarrow> (\<exists>err. writeLogFile p v fs = (Inl err, fs)))
   \<and> (fs (dirname p) = None \<and> list_all (\<lambda>q. \<not> is_file (fs q)) (ancestors (dirname p)) \<longrightarrow>
        writeLogFile p v fs = (Inl ENOENT, fs))
   \<and> (list_ex (\<lambda>q. is_file (fs q) \<and> list_all (\<lambda>r. fs r = Some Dir) (butlast (ancestors q)))
          (ancestors (dirname p)) \<longrightarrow>
        writeLogFile p v fs = (Inl ENOTDIR, fs))"
proof (intro conjI impI)
  assume "list_all (\<lambda>q. fs q = Some Dir) (ancestors (dirname p)) \<and> fs p \<noteq> Some Dir"
  then show "writeLogFile p v fs = (Inr (), fs(p \<mapsto> File (JSON_stringify v)))"
    unfolding writeLogFile_def by (intro writeFileSync_succeeds) simp_all
next
  assume "fs (dirname p) \<noteq> Some Dir"
  from writeFileSync_fails[of fs p "JSON_stringify v", OF this]
  show "\<exists>err. writeLogFile p v fs = (Inl err, fs)"
    unfolding writeLogFile_def by blast
next
  assume a: "fs (dirname p) = None \<and> list_all (\<lambda>q. \<not> is_file (fs q)) (ancestors (dirname p))"
  then have "fs (dirname p) \<noteq> Some Dir" by simp
  from writeFileSync_fails[of fs p "JSON_stringify v", OF this] a
  show "writeLogFile p v fs = (Inl ENOENT, fs)"
    unfolding writeLogFile_def by (auto simp: list_all_iff)
next
  assume "list_ex (\<lambda>q. is_file (fs q) \<and> list_all (\<lambda>r. fs r = Some Dir) (butlast (ancestors q)))
      (ancestors (dirname p))"
  then obtain q where q: "q \<in> set (ancestors (dirname p))" "is_file (fs q)"
      "list_all (\<lambda>r. fs r = Some Dir) (butlast (ancestors q))"
    by (auto simp: list_ex_iff)
  from q(2) have nd: "fs q \<noteq> Some Dir" by (auto simp: is_file_def)
  from first_on_the_way[OF q(1) nd q(3)] q(2)
  show "writeLogFile p v fs = (Inl ENOTDIR, fs)"
    by (simp add: writeLogFile_def writeFileSync_def)
qed

text \<open>The claim as stated fails: in a workspace without the log directory the write does not
  succeed and creates nothing.\<close>

theorem writeLogFile_creates_no_directory:
  "writeLogFile day_log (JArr [LogEntry_json fix_bug]) fresh_workspace = (Inl ENOENT, fresh_workspace)"
  by (simp add: writeLogFile_def writeFileSync_def fresh_workspace_def day_log_def dirname_def
      ancestors_def upt_rec is_file_def)

text \<open>With the log directory in place the write replaces the old content; without it, the
  write fails, with \<^verbatim>\<open>ENOENT\<close> in an empty root and with \<^verbatim>\<open>ENOTDIR\<close> when
  \<^verbatim>\<open>/workspace\<close> is a regular file. The text written for one entry is shown in full.\<close>

theorem writeLogFile_needs_directory_witness:
  \<open>writeLogFile day_log (JArr [LogEntry_json add_tests])
      (workspace_with_logs_dir(day_log \<mapsto> File ''[]''))
     = (Inr (), workspace_with_logs_dir
          (day_log \<mapsto> File (JSON_stringify (JArr [LogEntry_json add_tests]))))
   \<and> writeLogFile day_log (JArr [LogEntry_json add_tests]) [[] \<mapsto> Dir]
     = (Inl ENOENT, [[] \<mapsto> Dir])
   \<and> writeLogFile day_log (JArr [LogEntry_json add_tests])
        [[] \<mapsto> Dir, [''workspace''] \<mapsto> File ''not a directory'']
     = (Inl ENOTDIR, [[] \<mapsto> Dir, [''workspace''] \<mapsto> File ''not a directory''])
   \<and> JSON_stringify (JArr [LogEntry_json add_tests]) =
''[
  {
    "timestamp": "2026-02-28T09:20:00.000Z",
    "description": "add tests",
    "aiPrompt": "add tests",
    "file": "/workspace/src/app.test.ts",
    "method": "",
    "codeContextSnippetHash": "e3b0c44298fc1c149afbf4c8996fb92427ae41e4649b934ca495991b7852b855",
    "summary": "(AI summary unavailable)",
    "source": "manual"
  }
]''\<close>
proof -
  let ?fs = "workspace_with_logs_dir(day_log \<mapsto> File ''[]'')"
  let ?blocked = "[[] \<mapsto> Dir, [''workspace''] \<mapsto> File ''not a directory'']"
  have a: "list_all (\<lambda>q. ?fs q = Some Dir) (ancestors (dirname day_log)) \<and> ?fs day_log \<noteq> Some Dir"
    by (simp add: workspace_with_logs_dir_def day_log_def logs_dir_def dirname_def
        ancestors_def upt_rec)
  have b: "[[] \<mapsto> Dir] (dirname day_log) = None
      \<and> list_all (\<lambda>q. \<not> is_file ([[] \<mapsto> Dir] q)) (ancestors (dirname day_log))"
    by (simp add: day_log_def dirname_def ancestors_def upt_rec is_file_def)
  have d: "list_ex (\<lambda>q. is_file (?blocked q)
        \<and> list_all (\<lambda>r. ?blocked r = Some Dir) (butlast (ancestors q)))
      (ancestors (dirname day_log))"
    by (simp add: day_log_def dirname_def ancestors_def upt_rec is_file_def)
  have c: \<open>JSON_stringify (JArr [LogEntry_json add_tests]) =
''[
  {
    "timestamp": "2026-02-28T09:20:00.000Z",
    "description": "add tests",
    "aiPrompt": "add tests",
    "file": "/workspace/src/app.test.ts",
    "method": "",
    "codeContextSnippetHash": "e3b0c44298fc1c149afbf4c8996fb92427ae41e4649b934ca495991b7852b855",
    "summary": "(AI summary unavailable)",
    "source": "manual"
  }
]''\<close>
    by code_simp
  show ?thesis
    using writeLogFile_needs_directory[of ?fs day_log "JArr [LogEntry_json add_tests]"]
      writeLogFile_needs_directory[of "[[] \<mapsto> Dir]" day_log "JArr [LogEntry_json add_tests]"]
      writeLogFile_needs_directory[of ?blocked day_log "JArr [LogEntry_json add_tests]"] a b c d
    by simp
qed

text \<open>
  Claim C6, as amended. \<^verbatim>\<open>readLogFile\<close> returns the empty sequence when nothing exists at
  the path or the file's content is empty or white space only. With other content it fails, with
  the parse error, exactly when the trimmed content is not valid JSON; content that is valid JSON
  is returned as parsed, whatever its shape, since nothing checks it against the Record type.
  A directory at the path makes the read itself fail, and that error is wrapped the same way.
\<close>

theorem readLogFile_cases:
  "(\<not> existsSync fs p \<longrightarrow> readLogFile fs p = Inr (JArr []))
   \<and> (\<forall>c. fs p = Some (File c) \<and> trim c = [] \<longrightarrow> readLogFile fs p = Inr (JArr []))
   \<and> (\<forall>c. fs p = Some (File c) \<and> trim c \<noteq> [] \<longrightarrow>
         readLogFile fs p =
           (case JSON_parse (trim c) of
              None \<Rightarrow> Inl (FailedToParseLogFile p SyntaxError)
            | Some v \<Rightarrow> Inr v))
   \<and> (fs p = Some Dir \<longrightarrow> readLogFile fs p = Inl (FailedToParseLogFile p EISDIR))"
  by (auto simp: readLogFile_def existsSync_def readFileSync_def Let_def split: option.splits)

text \<open>The claim as stated fails: the text \<^verbatim>\<open>{}\<close> is not a serialised sequence of Records,
  and reading a file that holds it is not an error.\<close>

theorem readLogFile_accepts_any_json:
  "\<not> valid_log_text ''{}''
   \<and> readLogFile (workspace_with_logs_dir(day_log \<mapsto> File ''{}'')) day_log = Inr (JObj [])"
  by code_simp

text \<open>No file; a file of white space; a truncated array; an object; a directory.\<close>

theorem readLogFile_cases_witness:
  "readLogFile workspace_with_logs_dir day_log = Inr (JArr [])
   \<and> readLogFile (workspace_with_logs_dir(day_log \<mapsto> File [CHR '' '', CHR 0x0A])) day_log = Inr (JArr [])
   \<and> readLogFile (workspace_with_logs_dir(day_log \<mapsto> File ''[1,'')) day_log
       = Inl (FailedToParseLogFile day_log SyntaxError)
   \<and> readLogFile (workspace_with_logs_dir(day_log \<mapsto> File ''{}'')) day_log = Inr (JObj [])
   \<and> readLogFile workspace_with_logs_dir logs_dir = Inl (FailedToParseLogFile logs_dir EISDIR)"
proof -
  have t1: "trim [CHR '' '', CHR 0x0A] = []" by code_simp
  have t2: "trim ''[1,'' = ''[1,''" by code_simp
  have t3: "trim ''{}'' = ''{}''" by code_simp
  have p2: "JSON_parse ''[1,'' = None" by code_simp
  have p3: "JSON_parse ''{}'' = Some (JObj [])" by code_simp
  have a: "\<not> existsSync workspace_with_logs_dir day_log"
    by (simp add: existsSync_def workspace_with_logs_dir_def day_log_def logs_dir_def)
  have d: "workspace_with_logs_dir logs_dir = Some Dir"
    by (simp add: workspace_with_logs_dir_def)
  show ?thesis
    using readLogFile_cases[of workspace_with_logs_dir day_log]
      readLogFile_cases[of "workspace_with_logs_dir(day_log \<mapsto> File [CHR '' '', CHR 0x0A])" day_log]
      readLogFile_cases[of "workspace_with_logs_dir(day_log \<mapsto> File ''[1,'')" day_log]
      readLogFile_cases[of "workspace_with_logs_dir(day_log \<mapsto> File ''{}'')" day_log]
      readLogFile_cases[of workspace_with_logs_dir logs_dir]
      a d t1 t2 t3 p2 p3
    by simp
qed

subsection \<open>The duplicate guard\<close>

text \<open>
  Claim C10, as amended. When the file at the path holds content that, trimmed, is not empty and
  is not valid JSON, \<^verbatim>\<open>readLogFile\<close> throws its parse error and \<^verbatim>\<open>isDuplicateEntry\<close>
  lets it through, for every candidate text: it returns no boolean. (Content that is valid JSON
  without being a sequence of Records is not rejected by the read.)
\<close>

theorem isDuplicateEntry_propagates:
  assumes "fs p = Some (File c)" and "trim c \<noteq> []" and "JSON_parse (trim c) = None"
  shows "readLogFile fs p = Inl (FailedToParseLogFile p SyntaxError)
    \<and> (\<forall>a. isDuplicateEntry dateValue now fs p a = Inl (FailedToParseLogFile p SyntaxError))"
  using assms
  by (simp add: isDuplicateEntry_def readLogFile_def existsSync_def readFileSync_def)

text \<open>The claim as stated fails: the text \<^verbatim>\<open>[1]\<close> is not a serialised sequence of Records,
  yet on a file that holds it the guard returns a boolean. (The last element is \<^verbatim>\<open>1\<close>, which
  has neither property, so the last prompt is the empty string.)\<close>

theorem isDuplicateEntry_answers_on_non_records:
  "\<not> valid_log_text ''[1]''
   \<and> isDuplicateEntry example_date 1772269290000
        (workspace_with_logs_dir(day_log \<mapsto> File ''[1]'')) day_log ''fix bug'' = Inr False"
  by code_simp

text \<open>A log file cut off in the middle of its array.\<close>

theorem isDuplicateEntry_propagates_witness:
  "readLogFile (workspace_with_logs_dir(day_log \<mapsto> File ''[1,'')) day_log
     = Inl (FailedToParseLogFile day_log SyntaxError)
   \<and> isDuplicateEntry example_date 1772269290000
        (workspace_with_logs_dir(day_log \<mapsto> File ''[1,'')) day_log ''fix bug''
     = Inl (FailedToParseLogFile day_log SyntaxError)"
proof -
  have t: "trim ''[1,'' \<noteq> []" by code_simp
  have p: "JSON_parse (trim ''[1,'') = None" by code_simp
  have f: "(workspace_with_logs_dir(day_log \<mapsto> File ''[1,'')) day_log = Some (File ''[1,'')"
    by simp
  show ?thesis
    using isDuplicateEntry_propagates
        [of "workspace_with_logs_dir(day_log \<mapsto> File ''[1,'')" day_log "''[1,''"
          example_date 1772269290000, OF f t p]
    by simp
qed

text \<open>
  Claim C1, as amended. On a day log that holds the sequence \<open>xs\<close>, \<^verbatim>\<open>isDuplicateEntry\<close>
  returns false when \<open>xs\<close> is empty; otherwise it returns true exactly when the candidate text
  equals the last record's prompt (its \<^verbatim>\<open>aiPrompt\<close>, or its \<^verbatim>\<open>description\<close> when it has
  none) and fewer than 120000 milliseconds have passed from the last record's timestamp to now:
  the timestamp is within two minutes of now, or it is later than now. Only the last record is
  constrained and only the last record appears in the result: no other record is consulted.
\<close>

theorem isDuplicateEntry_last_record:
  assumes "readLogFile fs filePath = Inr (JArr xs)"
    and "xs = [] \<or> guard_record (last xs)"
  shows "isDuplicateEntry dateValue now fs filePath candidate
     = Inr (xs \<noteq> [] \<and> record_prompt (last xs) = Some (JStr candidate)
            \<and> (within_two_minutes dateValue now (last xs)
                \<or> later_than_now dateValue now (last xs)))"
proof (cases "xs = []")
  case True
  then show ?thesis using assms(1) by (simp add: isDuplicateEntry_def length_is_zero_def)
next
  case False
  with assms(2) have g: "guard_record (last xs)" by simp
  then obtain kvs where l: "last xs = JObj kvs" by (cases "last xs") (simp_all add: guard_record_def)
  from g l obtain ts d where ts: "map_of kvs ''timestamp'' = Some (JStr ts)"
    and d: "map_of kvs ''description'' = Some (JStr d)"
    by (auto simp: guard_record_def is_string_def split: option.splits json.splits)
  from g l have ap: "map_of kvs ''aiPrompt'' = None \<or> (\<exists>a. map_of kvs ''aiPrompt'' = Some (JStr a))"
    by (auto simp: guard_record_def is_string_def split: option.splits json.splits)
  show ?thesis
    using assms(1) False l ts d ap
    by (auto simp: isDuplicateEntry_def length_is_zero_def last_element_def js_get_def nullish_def
        record_prompt_def within_two_minutes_def later_than_now_def TWO_MINUTES_MS_def Let_def
        split: option.splits)
qed

text \<open>The claim as stated fails on a record stamped after the current instant: with the
  log's only record stamped 09:00, the same prompt at 08:00, an hour before, is reported as a
  duplicate, although the record's timestamp is not within two minutes of that instant.\<close>

theorem isDuplicateEntry_counts_later_record:
  "isDuplicateEntry example_date 1772265600000
      (workspace_with_logs_dir(day_log \<mapsto> File (JSON_stringify (JArr [LogEntry_json fix_bug]))))
      day_log ''fix bug'' = Inr True
   \<and> \<not> within_two_minutes example_date 1772265600000 (LogEntry_json fix_bug)"
proof -
  let ?fs = "workspace_with_logs_dir(day_log \<mapsto> File (JSON_stringify (JArr [LogEntry_json fix_bug])))"
  have r: "readLogFile ?fs day_log = Inr (JArr [LogEntry_json fix_bug])"
    using plain_LogEntries[of "[fix_bug]"] by (intro readLogFile_stringified) simp_all
  have dup: "isDuplicateEntry example_date 1772265600000 ?fs day_log ''fix bug'' = Inr True"
    unfolding isDuplicateEntry_def r
    by (simp add: length_is_zero_def last_element_def js_get_def nullish_def LogEntry_json_def
        fix_bug_def example_date_def TWO_MINUTES_MS_def Let_def)
  have far: "\<not> within_two_minutes example_date 1772265600000 (LogEntry_json fix_bug)"
    by (simp add: within_two_minutes_def js_get_def LogEntry_json_def fix_bug_def
        example_date_def)
  from dup far show ?thesis by simp
qed

text \<open>The log whose only record has the prompt \<^verbatim>\<open>fix bug\<close> at time T: the same prompt 90
  seconds later is a duplicate, 150 seconds later it is not, and \<^verbatim>\<open>fix bugs\<close> after 10
  seconds is not. With the empty log nothing is a duplicate. And in a log of two records the
  first, although it has the candidate's prompt and is recent enough, does not count.\<close>

theorem isDuplicateEntry_last_record_witness:
  "isDuplicateEntry example_date (1772269200000 + 90000)
      (workspace_with_logs_dir(day_log \<mapsto> File (JSON_stringify (JArr [LogEntry_json fix_bug]))))
      day_log ''fix bug'' = Inr True
   \<and> isDuplicateEntry example_date (1772269200000 + 150000)
      (workspace_with_logs_dir(day_log \<mapsto> File (JSON_stringify (JArr [LogEntry_json fix_bug]))))
      day_log ''fix bug'' = Inr False
   \<and> isDuplicateEntry example_date (1772269200000 + 10000)
      (workspace_with_logs_dir(day_log \<mapsto> File (JSON_stringify (JArr [LogEntry_json fix_bug]))))
      day_log ''fix bugs'' = Inr False
   \<and> isDuplicateEntry example_date (1772269200000 + 90000)
      (workspace_with_logs_dir(day_log \<mapsto> File ''[]'')) day_log ''fix bug'' = Inr False
   \<and> isDuplicateEntry example_date (1772269200000 + 90000)
      (workspace_with_logs_dir
        (day_log \<mapsto> File (JSON_stringify (JArr (map LogEntry_json [fix_bug, add_tests])))))
      day_log ''fix bug'' = Inr False"
proof -
  let ?fs = "workspace_with_logs_dir(day_log \<mapsto> File (JSON_stringify (JArr [LogEntry_json fix_bug])))"
  let ?fs2 = "workspace_with_logs_dir
        (day_log \<mapsto> File (JSON_stringify (JArr (map LogEntry_json [fix_bug, add_tests]))))"
  have r: "readLogFile ?fs day_log = Inr (JArr [LogEntry_json fix_bug])"
    using plain_LogEntries[of "[fix_bug]"] by (intro readLogFile_stringified) simp_all
  have r2: "readLogFile ?fs2 day_log = Inr (JArr (map LogEntry_json [fix_bug, add_tests]))"
    using plain_LogEntries[of "[fix_bug, add_tests]"] by (intro readLogFile_stringified) simp_all
  have g: "[LogEntry_json fix_bug] = [] \<or> guard_record (last [LogEntry_json fix_bug])"
    by (simp add: guard_record_def LogEntry_json_def is_string_def)
  have g2: "map LogEntry_json [fix_bug, add_tests] = []
      \<or> guard_record (last (map LogEntry_json [fix_bug, add_tests]))"
    by (simp add: guard_record_def LogEntry_json_def is_string_def)
  have e: "readLogFile (workspace_with_logs_dir(day_log \<mapsto> File ''[]'')) day_log = Inr (JArr [])"
    by code_simp
  have prompt: "record_prompt (LogEntry_json fix_bug) = Some (JStr ''fix bug'')"
    by (simp add: record_prompt_def js_get_def LogEntry_json_def fix_bug_def)
  have prompt2: "record_prompt (LogEntry_json add_tests) = Some (JStr ''add tests'')"
    by (simp add: record_prompt_def js_get_def LogEntry_json_def add_tests_def)
  have time: "js_get (LogEntry_json fix_bug) ''timestamp'' = Some (JStr ''2026-02-28T09:00:00.000Z'')"
    by (simp add: js_get_def LogEntry_json_def fix_bug_def)
  show ?thesis
    using isDuplicateEntry_last_record[OF r g, of example_date "1772269200000 + 90000" "''fix bug''"]
      isDuplicateEntry_last_record[OF r g, of example_date "1772269200000 + 150000" "''fix bug''"]
      isDuplicateEntry_last_record[OF r g, of example_date "1772269200000 + 10000" "''fix bugs''"]
      isDuplicateEntry_last_record[OF e, of example_date "1772269200000 + 90000" "''fix bug''"]
      isDuplicateEntry_last_record[OF r2 g2, of example_date "1772269200000 + 90000" "''fix bug''"]
    by (simp add: prompt prompt2 time within_two_minutes_def later_than_now_def example_date_def)
qed

subsection \<open>The fallback loop\<close>



subsection \<open>The summary\<close>

text \<open>
  Claim C3. \<^verbatim>\<open>summarizeCode\<close> never throws: its result is always a text. For an empty or
  white-space-only snippet the text is the fixed placeholder and the world is left as it was, so
  no request is made. For any other snippet, when every candidate model fails, the text is
  \<^verbatim>\<open>(AI summary unavailable)\<close>; the failure is logged, not thrown.
\<close>

theorem summarizeCode_never_raises:
  "(\<exists>text. fst (summarizeCode svc apiKey codeSnippet taskDescription w) = Inr text)
   \<and> (trim codeSnippet = [] \<longrightarrow>
        summarizeCode svc apiKey codeSnippet taskDescription w
          = (Inr ''(no code context available)'', w))
   \<and> (trim codeSnippet \<noteq> []
        \<and> sequential_failures svc (requests w)
            (map (\<lambda>m. (apiKey, m, summary_prompt codeSnippet taskDescription)) FALLBACK_MODELS) errs
      \<longrightarrow> summarizeCode svc apiKey codeSnippet taskDescription w
          = (Inr ''(AI summary unavailable)'',
             w\<lparr>requests := requests w
                  @ map (\<lambda>m. (apiKey, m, summary_prompt codeSnippet taskDescription)) FALLBACK_MODELS,
                console := console w @ warnings FALLBACK_MODELS errs
                  @ [Error_summarizeCode (last errs)]\<rparr>))"
proof (intro conjI; (rule impI)?)
  show "\<exists>text. fst (summarizeCode svc apiKey codeSnippet taskDescription w) = Inr text"
    by (auto simp: summarizeCode_def split: prod.splits sum.splits)
next
  assume "trim codeSnippet = []"
  then show "summarizeCode svc apiKey codeSnippet taskDescription w
          = (Inr ''(no code context available)'', w)"
    by (simp add: summarizeCode_def)
next
  assume a: "trim codeSnippet \<noteq> []
        \<and> sequential_failures svc (requests w)
            (map (\<lambda>m. (apiKey, m, summary_prompt codeSnippet taskDescription)) FALLBACK_MODELS) errs"
  have ne: "FALLBACK_MODELS \<noteq> []" by (simp add: FALLBACK_MODELS_def)
  have "generateContentWithFallback svc apiKey (summary_prompt codeSnippet taskDescription)
          FALLBACK_MODELS w
        = (Inl (last errs),
           w\<lparr>requests := requests w
                @ map (\<lambda>m. (apiKey, m, summary_prompt codeSnippet taskDescription)) FALLBACK_MODELS,
              console := console w @ warnings FALLBACK_MODELS errs\<rparr>)"
    using a ne
      fallback_loop_failures[of svc w apiKey "summary_prompt codeSnippet taskDescription"
        FALLBACK_MODELS errs "[]" None]
    by (simp add: generateContentWithFallback_def)
  then show "summarizeCode svc apiKey codeSnippet taskDescription w
          = (Inr ''(AI summary unavailable)'',
             w\<lparr>requests := requests w
                  @ map (\<lambda>m. (apiKey, m, summary_prompt codeSnippet taskDescription)) FALLBACK_MODELS,
                console := console w @ warnings FALLBACK_MODELS errs
                  @ [Error_summarizeCode (last errs)]\<rparr>)"
    using a by (simp add: summarizeCode_def)
qed

text \<open>A blank snippet; a snippet when every model fails, with the three requests that were
  made; and a snippet when a model answers.\<close>

theorem summarizeCode_never_raises_witness:
  "summarizeCode nothing_answers ''key'' ''  \<newline>'' None quiet = (Inr ''(no code context available)'', quiet)
   \<and> fst (summarizeCode nothing_answers ''key'' ''return a + b;'' (Some ''add two numbers'') quiet)
       = Inr ''(AI summary unavailable)''
   \<and> requests (snd (summarizeCode nothing_answers ''key'' ''return a + b;'' (Some ''add two numbers'') quiet))
       = map (\<lambda>m. (''key'', m, summary_prompt ''return a + b;'' (Some ''add two numbers''))) FALLBACK_MODELS
   \<and> fst (summarizeCode (pro_answers ''Adds two numbers.'') ''key'' ''return a + b;'' None quiet)
       = Inr ''Adds two numbers.''"
proof -
  have t1: "trim ''  \<newline>'' = []" by code_simp
  have t2: "trim ''return a + b;'' \<noteq> []" by code_simp
  have f: "sequential_failures nothing_answers (requests quiet)
      (map (\<lambda>m. (''key'', m, summary_prompt ''return a + b;'' (Some ''add two numbers''))) FALLBACK_MODELS)
      [ServiceError ''503 gemini-3-flash-preview'', ServiceError ''503 gemini-2.5-pro'',
       ServiceError ''503 gemini-2.5-flash'']"
    by (simp add: nothing_answers_def FALLBACK_MODELS_def)
  have ok: "fst (summarizeCode (pro_answers ''Adds two numbers.'') ''key'' ''return a + b;'' None quiet)
       = Inr ''Adds two numbers.''"
    by code_simp
  note inst = summarizeCode_never_raises[of nothing_answers "''key''" _ _ quiet]
  show ?thesis
    using inst[of "''  \<newline>''" None, THEN conjunct2, THEN conjunct1]
      inst[of "''return a + b;''" "Some ''add two numbers''", THEN conjunct2, THEN conjunct2, rule_format, OF conjI, OF t2 f]
      t1 ok
    by (simp add: quiet_def)
qed

subsection \<open>The timesheet\<close>

text \<open>
  Claim C4, as amended. When the response, with its fences stripped, is not valid JSON,
  \<^verbatim>\<open>generateTimesheetFromLogs\<close> throws, as it does when the fallback loop throws; it never
  returns a default timesheet. A response that is valid JSON is returned as parsed, whatever its
  shape, since nothing checks it against the Timesheet type. And whenever
  \<^verbatim>\<open>generateTimesheetFromLogs\<close> throws, the command reports the failure and leaves the file
  system as it was: no timesheet file is written, and an earlier one is untouched.
\<close>

theorem aggregation_failure_writes_nothing:
  "(\<forall>text w'.
       generateContentWithFallback svc apiKey (timesheet_prompt logEntries dateStr)
         FALLBACK_MODELS w = (Inr text, w')
       \<longrightarrow> generateTimesheetFromLogs svc apiKey logEntries dateStr w
           = (case JSON_parse (trim (strip_closing_fence (strip_opening_fence text))) of
                None \<Rightarrow>
                  (Inl (FailedToGenerateTimesheet SyntaxError),
                   w'\<lparr>console := console w' @ [Error_generateTimesheetFromLogs SyntaxError]\<rparr>)
              | Some parsed \<Rightarrow> (Inr parsed, w')))
   \<and> (\<forall>err w'.
       generateContentWithFallback svc apiKey (timesheet_prompt logEntries dateStr)
         FALLBACK_MODELS w = (Inl err, w')
       \<longrightarrow> fst (generateTimesheetFromLogs svc apiKey logEntries dateStr w)
           = Inl (FailedToGenerateTimesheet err))
   \<and> (\<forall>err logFilePath.
       resolveDayFilePath s (today s) logs = Some logFilePath
       \<and> readLogFile fs logFilePath = Inr logEntries
       \<and> length_is_zero logEntries = Inr False
       \<and> geminiApiKey s = Some apiKey \<and> apiKey \<noteq> []
       \<and> fst (generateTimesheetFromLogs svc apiKey logEntries (today s) w) = Inl err
       \<longrightarrow> fst (generateTimesheet svc s fs w) = Inr ()
         \<and> fst (snd (generateTimesheet svc s fs w)) = fs
         \<and> snd (snd (snd (generateTimesheet svc s fs w))) = [Timesheet_generation_failed err])"
proof (intro conjI allI impI)
  fix response w'
  assume "generateContentWithFallback svc apiKey (timesheet_prompt logEntries dateStr)
         FALLBACK_MODELS w = (Inr response, w')"
  then show "generateTimesheetFromLogs svc apiKey logEntries dateStr w
           = (case JSON_parse (trim (strip_closing_fence (strip_opening_fence response))) of
                None \<Rightarrow>
                  (Inl (FailedToGenerateTimesheet SyntaxError),
                   w'\<lparr>console := console w' @ [Error_generateTimesheetFromLogs SyntaxError]\<rparr>)
              | Some parsed \<Rightarrow> (Inr parsed, w'))"
    by (simp add: generateTimesheetFromLogs_def split: option.splits)
next
  fix err w'
  assume "generateContentWithFallback svc apiKey (timesheet_prompt logEntries dateStr)
         FALLBACK_MODELS w = (Inl err, w')"
  then show "fst (generateTimesheetFromLogs svc apiKey logEntries dateStr w)
           = Inl (FailedToGenerateTimesheet err)"
    by (simp add: generateTimesheetFromLogs_def)
next
  fix err logFilePath
  assume a: "resolveDayFilePath s (today s) logs = Some logFilePath
       \<and> readLogFile fs logFilePath = Inr logEntries
       \<and> length_is_zero logEntries = Inr False
       \<and> geminiApiKey s = Some apiKey \<and> apiKey \<noteq> []
       \<and> fst (generateTimesheetFromLogs svc apiKey logEntries (today s) w) = Inl err"
  have ex: "fileExists fs logFilePath"
  proof (rule ccontr)
    assume "\<not> fileExists fs logFilePath"
    then have "readLogFile fs logFilePath = Inr (JArr [])"
      by (simp add: readLogFile_def fileExists_def)
    with a have "logEntries = JArr []" by simp
    with a show False by (simp add: length_is_zero_def)
  qed
  obtain w' where g: "generateTimesheetFromLogs svc apiKey logEntries (today s) w = (Inl err, w')"
    using a by (cases "generateTimesheetFromLogs svc apiKey logEntries (today s) w") auto
  have run: "generateTimesheet svc s fs w = (Inr (), fs, w', [Timesheet_generation_failed err])"
    using a ex g by (simp add: generateTimesheet_def Let_def)
  show "fst (generateTimesheet svc s fs w) = Inr ()"
    and "fst (snd (generateTimesheet svc s fs w)) = fs"
    and "snd (snd (snd (generateTimesheet svc s fs w))) = [Timesheet_generation_failed err]"
    by (simp_all add: run)
qed

text \<open>The claim as stated fails: the response \<^verbatim>\<open>{}\<close> is valid JSON that does not match the
  Timesheet shape, yet no error is raised, and the command writes it over the earlier
  timesheet.\<close>

theorem aggregation_accepts_any_json:
  "\<not> is_Timesheet (JObj [])
   \<and> fst (generateTimesheetFromLogs (always_answers ''{}'') ''AIza-example''
            (JArr [LogEntry_json fix_bug]) ''2026-02-28'' quiet) = Inr (JObj [])
   \<and> workspace_with_timesheet day_timesheet
       = Some (File (JSON_stringify (Timesheet_json sample_timesheet)))
   \<and> fst (snd (generateTimesheet (always_answers ''{}'') example_session workspace_with_timesheet quiet))
        day_timesheet = Some (File ''{}'')"
  by code_simp

text \<open>The second candidate model answers with prose: the command reports the failure and the
  workspace, with its earlier timesheet, is as it was. The same when no model answers.\<close>

theorem aggregation_failure_writes_nothing_witness:
  "generateTimesheet (pro_answers ''Sorry, I cannot help with that.'') example_session
       workspace_with_timesheet quiet
     = (Inr (), workspace_with_timesheet,
        snd (generateTimesheetFromLogs (pro_answers ''Sorry, I cannot help with that.'')
               ''AIza-example'' (JArr [LogEntry_json fix_bug]) ''2026-02-28'' quiet),
        [Timesheet_generation_failed (FailedToGenerateTimesheet SyntaxError)])
   \<and> fst (snd (generateTimesheet nothing_answers example_session workspace_with_timesheet quiet))
       = workspace_with_timesheet
   \<and> snd (snd (snd (generateTimesheet nothing_answers example_session workspace_with_timesheet quiet)))
       = [Timesheet_generation_failed
            (FailedToGenerateTimesheet (ServiceError ''503 gemini-2.5-flash''))]"
proof -
  let ?le = "JArr [LogEntry_json fix_bug]"
  have p: "resolveDayFilePath example_session (today example_session) logs = Some day_log"
    by (simp add: example_session_def day_log_def)
  have r: "readLogFile workspace_with_timesheet day_log = Inr ?le"
    using plain_LogEntries[of "[fix_bug]"]
    by (intro readLogFile_stringified) (simp_all add: workspace_with_timesheet_def day_log_def day_timesheet_def)
  have z: "length_is_zero ?le = Inr False"
    by (simp add: length_is_zero_def)
  have k: "geminiApiKey example_session = Some ''AIza-example'' \<and> ''AIza-example'' \<noteq> []"
    by (simp add: example_session_def)
  have d: "today example_session = ''2026-02-28''"
    by (simp add: example_session_def)
  have e1: "fst (generateTimesheetFromLogs (pro_answers ''Sorry, I cannot help with that.'')
               ''AIza-example'' ?le ''2026-02-28'' quiet) = Inl (FailedToGenerateTimesheet SyntaxError)"
    by code_simp
  have e2: "fst (generateTimesheetFromLogs nothing_answers
               ''AIza-example'' ?le ''2026-02-28'' quiet)
            = Inl (FailedToGenerateTimesheet (ServiceError ''503 gemini-2.5-flash''))"
    by code_simp
  note third = aggregation_failure_writes_nothing
    [where s = example_session and fs = workspace_with_timesheet and w = quiet
       and apiKey = "''AIza-example''" and logEntries = ?le,
     THEN conjunct2, THEN conjunct2, rule_format]
  have a: "fst (generateTimesheet (pro_answers ''Sorry, I cannot help with that.'') example_session
              workspace_with_timesheet quiet) = Inr ()
         \<and> fst (snd (generateTimesheet (pro_answers ''Sorry, I cannot help with that.'') example_session
              workspace_with_timesheet quiet)) = workspace_with_timesheet
         \<and> snd (snd (snd (generateTimesheet (pro_answers ''Sorry, I cannot help with that.'')
              example_session workspace_with_timesheet quiet)))
            = [Timesheet_generation_failed (FailedToGenerateTimesheet SyntaxError)]"
    by (rule third) (use p r z k d e1 in simp)
  have b: "fst (generateTimesheet nothing_answers example_session workspace_with_timesheet quiet) = Inr ()
         \<and> fst (snd (generateTimesheet nothing_answers example_session
              workspace_with_timesheet quiet)) = workspace_with_timesheet
         \<and> snd (snd (snd (generateTimesheet nothing_answers
              example_session workspace_with_timesheet quiet)))
            = [Timesheet_generation_failed
                 (FailedToGenerateTimesheet (ServiceError ''503 gemini-2.5-flash''))]"
    by (rule third) (use p r z k d e2 in simp)
  obtain w' where g: "generateTimesheetFromLogs (pro_answers ''Sorry, I cannot help with that.'')
               ''AIza-example'' ?le ''2026-02-28'' quiet = (Inl (FailedToGenerateTimesheet SyntaxError), w')"
    using e1 by (cases "generateTimesheetFromLogs (pro_answers ''Sorry, I cannot help with that.'')
               ''AIza-example'' ?le ''2026-02-28'' quiet") auto
  have ex: "fileExists workspace_with_timesheet day_log"
    by (simp add: fileExists_def existsSync_def workspace_with_timesheet_def day_log_def
        day_timesheet_def)
  have w: "fst (snd (snd (generateTimesheet (pro_answers ''Sorry, I cannot help with that.'')
                 example_session workspace_with_timesheet quiet)))
        = snd (generateTimesheetFromLogs (pro_answers ''Sorry, I cannot help with that.'')
               ''AIza-example'' ?le ''2026-02-28'' quiet)"
    using p r z k d ex g by (simp add: generateTimesheet_def Let_def)
  show ?thesis
    using a b w by (simp add: prod_eq_iff)
qed

text \<open>
  Claim C5. When the response the fallback loop returns is the specification's example object,
  bare or between a fence \<^verbatim>\<open>```\<close> or \<^verbatim>\<open>```json\<close> and a closing fence, with any one-byte
  white space between the fences and the object, \<^verbatim>\<open>generateTimesheetFromLogs\<close> returns the
  timesheet dated 2026-02-28 with the one category \<^verbatim>\<open>Debugging\<close> and its one entry
  \<^verbatim>\<open>Fix null check\<close> from 09:00 to 09:30.
\<close>

theorem timesheet_from_sample_response:
  assumes "generateContentWithFallback svc apiKey (timesheet_prompt logEntries dateStr)
             FALLBACK_MODELS w = (Inr text, w')"
    and "text = sample_text
         \<or> text = ''```'' @ ws1 @ sample_text @ ws2 @ ''```''
         \<or> text = ''```json'' @ ws1 @ sample_text @ ws2 @ ''```''"
    and "list_all is_space ws1" and "list_all is_space ws2"
  shows "generateTimesheetFromLogs svc apiKey logEntries dateStr w
           = (Inr (Timesheet_json sample_timesheet), w')
         \<and> Timesheet_json sample_timesheet
           = JObj [(''date'', JStr ''2026-02-28''),
                   (''tasks'', JArr [JObj [(''category'', JStr ''Debugging''),
                      (''entries'', JArr [JObj [(''task'', JStr ''Fix null check''),
                         (''start'', JStr ''09:00''), (''end'', JStr ''09:30'')]])]])]"
proof -
  obtain t b where br: "sample_text = CHR ''{'' # t" "sample_text = b @ [CHR ''}'']"
    using sample_braces by blast
  have "trim (strip_closing_fence (strip_opening_fence text)) = sample_text"
    using assms(2) unfence[OF br assms(3,4)] by auto
  then have "generateTimesheetFromLogs svc apiKey logEntries dateStr w
           = (Inr (Timesheet_json sample_timesheet), w')"
    using assms(1) by (simp add: generateTimesheetFromLogs_def sample_parses)
  moreover have "Timesheet_json sample_timesheet
           = JObj [(''date'', JStr ''2026-02-28''),
                   (''tasks'', JArr [JObj [(''category'', JStr ''Debugging''),
                      (''entries'', JArr [JObj [(''task'', JStr ''Fix null check''),
                         (''start'', JStr ''09:00''), (''end'', JStr ''09:30'')]])]])]"
    by (simp add: Timesheet_json_def TimesheetCategory_json_def TimesheetEntry_json_def
        sample_timesheet_def)
  ultimately show ?thesis by simp
qed

text \<open>The second candidate model answers, once with the object in a \<^verbatim>\<open>```json\<close> fence on
  lines of their own, once with the bare object.\<close>

theorem timesheet_from_sample_response_witness:
  "fst (generateTimesheetFromLogs
          (pro_answers (''```json'' @ [CHR 0x0A] @ sample_text @ [CHR 0x0A] @ ''```'' @ [CHR 0x0A]))
          ''AIza-example'' (JArr [LogEntry_json fix_bug]) ''2026-02-28'' quiet)
     = Inr (Timesheet_json sample_timesheet)
   \<and> fst (generateTimesheetFromLogs (pro_answers sample_text)
          ''AIza-example'' (JArr [LogEntry_json fix_bug]) ''2026-02-28'' quiet)
     = Inr (Timesheet_json sample_timesheet)
   \<and> is_Timesheet (Timesheet_json sample_timesheet)"
proof -
  let ?prompt = "timesheet_prompt (JArr [LogEntry_json fix_bug]) ''2026-02-28''"
  let ?fenced = "generateContentWithFallback
            (pro_answers (''```json'' @ [CHR 0x0A] @ sample_text @ [CHR 0x0A] @ ''```'' @ [CHR 0x0A]))
            ''AIza-example'' ?prompt FALLBACK_MODELS quiet"
  let ?bare = "generateContentWithFallback (pro_answers sample_text)
            ''AIza-example'' ?prompt FALLBACK_MODELS quiet"
  have "fst ?fenced = Inr (''```json'' @ [CHR 0x0A] @ sample_text @ [CHR 0x0A] @ ''```'')"
    by code_simp
  then have f: "?fenced = (Inr (''```json'' @ [CHR 0x0A] @ sample_text @ [CHR 0x0A] @ ''```''), snd ?fenced)"
    by (simp add: prod_eq_iff)
  have "fst ?bare = Inr sample_text"
    by code_simp
  then have b: "?bare = (Inr sample_text, snd ?bare)"
    by (simp add: prod_eq_iff)
  have sp: "list_all is_space [CHR 0x0A]"
    by (simp add: is_space_def js_whitespace_def)
  have shape: "is_Timesheet (Timesheet_json sample_timesheet)"
    by code_simp
  have "generateTimesheetFromLogs
          (pro_answers (''```json'' @ [CHR 0x0A] @ sample_text @ [CHR 0x0A] @ ''```'' @ [CHR 0x0A]))
          ''AIza-example'' (JArr [LogEntry_json fix_bug]) ''2026-02-28'' quiet
        = (Inr (Timesheet_json sample_timesheet), snd ?fenced)"
    using timesheet_from_sample_response[OF f _ sp sp] by blast
  moreover have "generateTimesheetFromLogs (pro_answers sample_text)
          ''AIza-example'' (JArr [LogEntry_json fix_bug]) ''2026-02-28'' quiet
        = (Inr (Timesheet_json sample_timesheet), snd ?bare)"
    using timesheet_from_sample_response[OF b _ sp sp] by blast
  ultimately show ?thesis
    using shape by simp
qed

end
